theory Spec2Isabelle
  imports Complex_Main "HOL-Library.Char_ord" "HOL-Library.List_Lexorder"
begin

section \<open>Exceptions\<close>

text \<open>
  The Python exceptions that the modelled code can raise or let through. A function that
  can raise returns \<open>exn + 'r\<close> (\<open>Inl\<close> the exception) next to the state it leaves.
  \<open>DriverError\<close> stands for any exception of the database driver that is neither a
  \<open>DatabaseError\<close> nor a \<open>ValueError\<close> (pg8000's \<open>InterfaceError\<close>, socket errors):
  no handler of \<open>database.py\<close> except the one of \<open>check_connection\<close> catches it.
\<close>

datatype exn =
  ValueError | OverflowError | KeyError | IndexError | AttributeError
  | DatabaseError | DriverError

section \<open>Dates: \<open>datetime\<close>, \<open>timedelta\<close> and \<open>calendar.monthrange\<close>\<close>

text \<open>
  A naive \<open>datetime\<close> is its seven fields. The helper functions follow the pure-Python
  \<open>datetime\<close> module: \<open>_days_before_year\<close>, \<open>_days_in_month\<close>,
  \<open>_days_before_month\<close>, \<open>_ymd2ord\<close>, \<open>weekday\<close>.
\<close>

record datetime =
  year :: int
  month :: int
  day :: int
  hour :: int
  minute :: int
  second :: int
  microsecond :: int

definition isleap :: "int \<Rightarrow> bool" where
  "isleap y = (y mod 4 = 0 \<and> (y mod 100 \<noteq> 0 \<or> y mod 400 = 0))"

definition mdays :: "int \<Rightarrow> int" where
  "mdays m =
     (if m = 2 then 28
      else if m = 4 \<or> m = 6 \<or> m = 9 \<or> m = 11 then 30
      else 31)"

definition days_in_month :: "int \<Rightarrow> int \<Rightarrow> int" where
  "days_in_month y m = mdays m + (if m = 2 \<and> isleap y then 1 else 0)"

definition days_before_year :: "int \<Rightarrow> int" where
  "days_before_year y =
     (let p = y - 1 in p * 365 + p div 4 - p div 100 + p div 400)"

definition days_before_month :: "int \<Rightarrow> int \<Rightarrow> int" where
  "days_before_month y m =
     (if m = 1 then 0 else if m = 2 then 31 else if m = 3 then 59
      else if m = 4 then 90 else if m = 5 then 120 else if m = 6 then 151
      else if m = 7 then 181 else if m = 8 then 212 else if m = 9 then 243
      else if m = 10 then 273 else if m = 11 then 304 else 334)
     + (if m > 2 \<and> isleap y then 1 else 0)"

definition ymd2ord :: "int \<Rightarrow> int \<Rightarrow> int \<Rightarrow> int" where
  "ymd2ord y m d = days_before_year y + days_before_month y m + d"

definition toordinal :: "datetime \<Rightarrow> int" where
  "toordinal d = ymd2ord (year d) (month d) (day d)"

definition weekday :: "datetime \<Rightarrow> int" where
  "weekday d = (toordinal d + 6) mod 7"

definition MAXORDINAL :: int where
  "MAXORDINAL = 3652059"

text \<open>The checks of the \<open>datetime\<close> constructor: a field out of range is a \<open>ValueError\<close>.\<close>

definition valid_date :: "int \<Rightarrow> int \<Rightarrow> int \<Rightarrow> bool" where
  "valid_date y m d =
     (1 \<le> y \<and> y \<le> 9999 \<and> 1 \<le> m \<and> m \<le> 12 \<and> 1 \<le> d \<and> d \<le> days_in_month y m)"

definition valid_time :: "int \<Rightarrow> int \<Rightarrow> int \<Rightarrow> int \<Rightarrow> bool" where
  "valid_time hh mi ss us =
     (0 \<le> hh \<and> hh \<le> 23 \<and> 0 \<le> mi \<and> mi \<le> 59 \<and> 0 \<le> ss \<and> ss \<le> 59
      \<and> 0 \<le> us \<and> us \<le> 999999)"

definition valid_datetime :: "datetime \<Rightarrow> bool" where
  "valid_datetime d =
     (valid_date (year d) (month d) (day d)
      \<and> valid_time (hour d) (minute d) (second d) (microsecond d))"

definition mk_datetime :: "int \<Rightarrow> int \<Rightarrow> int \<Rightarrow> int \<Rightarrow> int \<Rightarrow> int \<Rightarrow> exn + datetime" where
  "mk_datetime y m d hh mi ss =
     (if valid_date y m d \<and> valid_time hh mi ss 0
      then Inr \<lparr>year = y, month = m, day = d, hour = hh, minute = mi, second = ss,
                microsecond = 0\<rparr>
      else Inl ValueError)"

text \<open>
  \<open>calendar.monthrange(year, month)[1]\<close>: the number of days of the month;
  \<open>IllegalMonthError\<close> is a \<open>ValueError\<close>.
\<close>

definition monthrange_ndays :: "int \<Rightarrow> int \<Rightarrow> exn + int" where
  "monthrange_ndays y m =
     (if 1 \<le> m \<and> m \<le> 12 then Inr (days_in_month y m) else Inl ValueError)"

text \<open>
  Comparison of two \<open>datetime\<close>s is the comparison of their field tuples, first
  difference decides (what Python's \<open>_cmp\<close> of the tuples does, and what the store
  does on timestamps that are valid dates).
\<close>

fun lex_le :: "int list \<Rightarrow> int list \<Rightarrow> bool" where
  "lex_le [] ys = True"
| "lex_le (x # xs) [] = False"
| "lex_le (x # xs) (y # ys) = (x < y \<or> (x = y \<and> lex_le xs ys))"

definition dt_fields :: "datetime \<Rightarrow> int list" where
  "dt_fields d = [year d, month d, day d, hour d, minute d, second d, microsecond d]"

definition dt_le :: "datetime \<Rightarrow> datetime \<Rightarrow> bool" where
  "dt_le a b = lex_le (dt_fields a) (dt_fields b)"

text \<open>
  Moving the date part by whole days. Python goes through the ordinal
  (\<open>date.fromordinal(self.toordinal() + k)\<close>); here the date is stepped one day at a
  time, and \<open>toordinal_shift_date\<close> below proves that the ordinal moves by \<open>k\<close>.
\<close>

definition next_day :: "datetime \<Rightarrow> datetime" where
  "next_day d =
     (if day d < days_in_month (year d) (month d) then d\<lparr>day := day d + 1\<rparr>
      else if month d < 12 then d\<lparr>month := month d + 1, day := 1\<rparr>
      else d\<lparr>year := year d + 1, month := 1, day := 1\<rparr>)"

definition prev_day :: "datetime \<Rightarrow> datetime" where
  "prev_day d =
     (if 1 < day d then d\<lparr>day := day d - 1\<rparr>
      else if 1 < month d
        then d\<lparr>month := month d - 1, day := days_in_month (year d) (month d - 1)\<rparr>
      else d\<lparr>year := year d - 1, month := 12, day := 31\<rparr>)"

fun steps :: "nat \<Rightarrow> (datetime \<Rightarrow> datetime) \<Rightarrow> datetime \<Rightarrow> datetime" where
  "steps 0 f d = d"
| "steps (Suc n) f d = steps n f (f d)"

definition shift_date :: "int \<Rightarrow> datetime \<Rightarrow> datetime" where
  "shift_date k d = (if 0 \<le> k then steps (nat k) next_day d else steps (nat (- k)) prev_day d)"

text \<open>
  \<open>dt + timedelta(days=dd, seconds=ss)\<close>: the seconds are added to the time of day, the
  carry goes to the days, and a result outside \<open>0001-01-01 .. 9999-12-31\<close> is an
  \<open>OverflowError\<close>.
\<close>

definition add_timedelta :: "datetime \<Rightarrow> int \<Rightarrow> int \<Rightarrow> exn + datetime" where
  "add_timedelta d dd ss =
     (let secs = hour d * 3600 + minute d * 60 + second d + ss;
          k = dd + secs div 86400;
          r = secs mod 86400;
          n = toordinal d + k
      in if 0 < n \<and> n \<le> MAXORDINAL
         then Inr ((shift_date k d)\<lparr>hour := r div 3600, minute := r mod 3600 div 60,
                                     second := r mod 60\<rparr>)
         else Inl OverflowError)"

section \<open>The relational store\<close>

text \<open>
  The four tables of \<open>create_tables\<close>, each a list of rows in the order the store
  returns them when a query gives no order. The amount type \<open>'a\<close> is the store's
  \<open>NUMERIC\<close>: the dialogue only carries amounts, the reports add them up (at type
  \<open>rat\<close>). The generated \<open>id\<close> columns of \<open>transactions\<close> and \<open>budgets\<close> are never
  read by the code and are left out; \<open>categories.id\<close> is read and kept.
\<close>

record user_row =
  u_user_id :: int
  u_name :: string
  u_currency :: string

record 'a transaction_row =
  t_user_id :: int
  t_type :: string
  t_amount :: 'a
  t_category :: string
  t_description :: string
  t_date :: datetime

record category_row =
  c_id :: int
  c_name :: string
  c_type :: string
  c_user_id :: "int option"

record 'a budget_row =
  b_user_id :: int
  b_category :: string
  b_limit_amount :: 'a
  b_period :: string

record 'a database =
  users :: "user_row list"
  transactions :: "'a transaction_row list"
  categories :: "category_row list"
  budgets :: "'a budget_row list"

section \<open>\<open>DatabaseManager\<close>: connection, health probe, reconnect\<close>

text \<open>
  How one call into the driver ends: it returns, or it raises \<open>OperationalError\<close>,
  another \<open>DatabaseError\<close>, or an exception outside that hierarchy.
\<close>

datatype outcome = Success | RaiseOperationalError | RaiseDatabaseError | RaiseOther

text \<open>
  The manager object together with the world it talks to. \<open>connection\<close> is whether
  \<open>self.connection\<close> holds a connection object (it is \<open>None\<close> until the first
  successful \<open>connect\<close>). Every call into the driver (a connect, the probe
  \<open>SELECT 1\<close>, a statement with its commit) asks \<open>driver\<close> at the current \<open>clock\<close>
  how it ends and advances the clock, so any pattern of outages is a value of \<open>driver\<close>.
  \<open>connect_calls\<close> counts the calls of \<open>connect\<close>. \<open>server\<close> is the content of the store
  and \<open>server_now\<close> what its \<open>NOW()\<close> returns.
\<close>

record 'a DatabaseManager =
  connection :: bool
  driver :: "nat \<Rightarrow> outcome"
  clock :: nat
  connect_calls :: nat
  server :: "'a database"
  server_now :: datetime

definition connect :: "'a DatabaseManager \<Rightarrow> (exn + bool) \<times> 'a DatabaseManager" where
  "connect m =
     (let m1 = m\<lparr>clock := clock m + 1, connect_calls := connect_calls m + 1\<rparr>
      in case driver m (clock m) of
           Success \<Rightarrow> (Inr True, m1\<lparr>connection := True\<rparr>)
         | RaiseOperationalError \<Rightarrow> (Inr False, m1)
         | RaiseDatabaseError \<Rightarrow> (Inl DatabaseError, m1)
         | RaiseOther \<Rightarrow> (Inl DriverError, m1))"

definition check_connection :: "'a DatabaseManager \<Rightarrow> bool \<times> 'a DatabaseManager" where
  "check_connection m =
     (if \<not> connection m then (False, m)
      else (driver m (clock m) = Success, m\<lparr>clock := clock m + 1\<rparr>))"

text \<open>
  The first lines of \<open>execute_query\<close>, \<open>execute_insert\<close> and \<open>execute_update\<close> (the
  same five lines in each): \<open>Inr True\<close> when the statement may run, \<open>Inr False\<close> when
  \<open>connect\<close> returned \<open>False\<close>, \<open>Inl\<close> when \<open>connect\<close> raised.
\<close>

definition reconnect_if_lost :: "'a DatabaseManager \<Rightarrow> (exn + bool) \<times> 'a DatabaseManager" where
  "reconnect_if_lost m =
     (if \<not> connection m then connect m
      else case check_connection m of
             (True, m1) \<Rightarrow> (Inr True, m1)
           | (False, m1) \<Rightarrow> connect m1)"

text \<open>
  A \<open>SELECT\<close> is the function from the store's content to its rows. A statement that
  writes returns the new content (and, for an \<open>UPDATE\<close>, the number of rows it
  matched), or \<open>None\<close> when the store rejects it (a \<open>DatabaseError\<close>: key or
  reference violated).
\<close>

definition execute_query ::
  "'a DatabaseManager \<Rightarrow> ('a database \<Rightarrow> 'r list) \<Rightarrow> (exn + 'r list) \<times> 'a DatabaseManager" where
  "execute_query m q =
     (case reconnect_if_lost m of
        (Inl e, m1) \<Rightarrow> (Inl e, m1)
      | (Inr False, m1) \<Rightarrow> (Inr [], m1)
      | (Inr True, m1) \<Rightarrow>
          (let m2 = m1\<lparr>clock := clock m1 + 1\<rparr>
           in case driver m1 (clock m1) of
                Success \<Rightarrow> (Inr (q (server m1)), m2)
              | RaiseOperationalError \<Rightarrow> (Inr [], m2)
              | RaiseDatabaseError \<Rightarrow> (Inr [], m2)
              | RaiseOther \<Rightarrow> (Inl DriverError, m2)))"

definition execute_insert ::
  "'a DatabaseManager \<Rightarrow> ('a database \<Rightarrow> 'a database option) \<Rightarrow> (exn + bool) \<times> 'a DatabaseManager" where
  "execute_insert m stmt =
     (case reconnect_if_lost m of
        (Inl e, m1) \<Rightarrow> (Inl e, m1)
      | (Inr False, m1) \<Rightarrow> (Inr False, m1)
      | (Inr True, m1) \<Rightarrow>
          (let m2 = m1\<lparr>clock := clock m1 + 1\<rparr>
           in case driver m1 (clock m1) of
                Success \<Rightarrow>
                  (case stmt (server m1) of
                     Some db \<Rightarrow> (Inr True, m2\<lparr>server := db\<rparr>)
                   | None \<Rightarrow> (Inr False, m2))
              | RaiseOperationalError \<Rightarrow> (Inr False, m2)
              | RaiseDatabaseError \<Rightarrow> (Inr False, m2)
              | RaiseOther \<Rightarrow> (Inl DriverError, m2)))"

definition execute_update ::
  "'a DatabaseManager \<Rightarrow> ('a database \<Rightarrow> (nat \<times> 'a database) option)
     \<Rightarrow> (exn + bool) \<times> 'a DatabaseManager" where
  "execute_update m stmt =
     (case reconnect_if_lost m of
        (Inl e, m1) \<Rightarrow> (Inl e, m1)
      | (Inr False, m1) \<Rightarrow> (Inr False, m1)
      | (Inr True, m1) \<Rightarrow>
          (let m2 = m1\<lparr>clock := clock m1 + 1\<rparr>
           in case driver m1 (clock m1) of
                Success \<Rightarrow>
                  (case stmt (server m1) of
                     Some (affected, db) \<Rightarrow> (Inr (0 < affected), m2\<lparr>server := db\<rparr>)
                   | None \<Rightarrow> (Inr False, m2))
              | RaiseOperationalError \<Rightarrow> (Inr False, m2)
              | RaiseDatabaseError \<Rightarrow> (Inr False, m2)
              | RaiseOther \<Rightarrow> (Inl DriverError, m2)))"

section \<open>The statements of \<open>database.py\<close>\<close>

text \<open>
  Each SQL text of the source with its parameters, read as a function on the store's
  content. \<open>users.user_id\<close> is the primary key, so an \<open>INSERT\<close> of a key that is
  present is rejected; \<open>transactions.user_id\<close> references \<open>users\<close>, so an \<open>INSERT\<close> for
  a user without a row is rejected. Both columns are \<open>BIGINT\<close>: a statement that writes
  a \<open>user_id\<close> outside \<open>-2^63 .. 2^63 - 1\<close> is rejected. \<open>ORDER BY name\<close> is the sort of
  the name strings.
\<close>

definition in_bigint :: "int \<Rightarrow> bool" where
  "in_bigint k = (- (2 ^ 63) \<le> k \<and> k < 2 ^ 63)"

definition sql_update_user ::
  "string \<Rightarrow> string \<Rightarrow> int \<Rightarrow> 'a database \<Rightarrow> (nat \<times> 'a database) option" where
  "sql_update_user name currency uid db =
     (if in_bigint uid
      then Some (length (filter (\<lambda>u. u_user_id u = uid) (users db)),
                 db\<lparr>users := map (\<lambda>u. if u_user_id u = uid
                                        then u\<lparr>u_name := name, u_currency := currency\<rparr>
                                        else u)
                                 (users db)\<rparr>)
      else None)"

definition sql_insert_user ::
  "int \<Rightarrow> string \<Rightarrow> string \<Rightarrow> 'a database \<Rightarrow> 'a database option" where
  "sql_insert_user uid name currency db =
     (if \<not> in_bigint uid \<or> uid \<in> set (map u_user_id (users db)) then None
      else Some (db\<lparr>users := users db
                    @ [\<lparr>u_user_id = uid, u_name = name, u_currency = currency\<rparr>]\<rparr>))"

definition sql_insert_transaction ::
  "int \<Rightarrow> string \<Rightarrow> 'a \<Rightarrow> string \<Rightarrow> string \<Rightarrow> datetime \<Rightarrow> 'a database \<Rightarrow> 'a database option" where
  "sql_insert_transaction uid ty amt cat descr now db =
     (if in_bigint uid \<and> uid \<in> set (map u_user_id (users db))
      then Some (db\<lparr>transactions := transactions db
                    @ [\<lparr>t_user_id = uid, t_type = ty, t_amount = amt, t_category = cat,
                        t_description = descr, t_date = now\<rparr>]\<rparr>)
      else None)"

definition sql_categories_of_type :: "int \<Rightarrow> string \<Rightarrow> 'a database \<Rightarrow> category_row list" where
  "sql_categories_of_type uid ty db =
     sort_key c_name (filter (\<lambda>c. c_user_id c = Some uid \<and> c_type c = ty) (categories db))"

definition sql_categories :: "int \<Rightarrow> 'a database \<Rightarrow> category_row list" where
  "sql_categories uid db =
     sort_key c_name (filter (\<lambda>c. c_user_id c = Some uid) (categories db))"

definition sql_budget_limit :: "int \<Rightarrow> string \<Rightarrow> string \<Rightarrow> 'a database \<Rightarrow> 'a list" where
  "sql_budget_limit uid cat period db =
     map b_limit_amount
       (filter (\<lambda>b. b_user_id b = uid \<and> b_category b = cat \<and> b_period b = period) (budgets db))"

text \<open>\<open>SELECT COALESCE(SUM(amount), 0) ... AND date >= %s\<close>: always one row.\<close>

definition sql_spent :: "int \<Rightarrow> string \<Rightarrow> datetime \<Rightarrow> rat database \<Rightarrow> rat list" where
  "sql_spent uid cat start_date db =
     [sum_list (map t_amount
        (filter (\<lambda>t. t_user_id t = uid \<and> t_category t = cat \<and> t_type t = ''expense''
                      \<and> dt_le start_date (t_date t))
           (transactions db)))]"

text \<open>
  \<open>SELECT type, SUM(amount), COUNT(*) ... WHERE user_id = %s AND date BETWEEN %s AND %s
  GROUP BY type\<close>: one row for each type that occurs among the selected rows.
\<close>

definition group_by_type :: "rat transaction_row list \<Rightarrow> (string \<times> rat \<times> int) list" where
  "group_by_type rows =
     map (\<lambda>ty. (ty,
                 sum_list (map t_amount (filter (\<lambda>t. t_type t = ty) rows)),
                 int (length (filter (\<lambda>t. t_type t = ty) rows))))
         (remdups (map t_type rows))"

definition sql_totals_by_type ::
  "int \<Rightarrow> datetime \<Rightarrow> datetime \<Rightarrow> rat database \<Rightarrow> (string \<times> rat \<times> int) list" where
  "sql_totals_by_type uid start_date end_date db =
     group_by_type
       (filter (\<lambda>t. t_user_id t = uid \<and> dt_le start_date (t_date t) \<and> dt_le (t_date t) end_date)
          (transactions db))"

section \<open>Users, transactions, categories\<close>

definition add_user ::
  "'a DatabaseManager \<Rightarrow> int \<Rightarrow> string \<Rightarrow> string \<Rightarrow> (exn + bool) \<times> 'a DatabaseManager" where
  "add_user m uid name currency =
     (case execute_update m (sql_update_user name currency uid) of
        (Inl e, m1) \<Rightarrow> (Inl e, m1)
      | (Inr True, m1) \<Rightarrow> (Inr True, m1)
      | (Inr False, m1) \<Rightarrow> execute_insert m1 (sql_insert_user uid name currency))"

definition add_transaction ::
  "'a DatabaseManager \<Rightarrow> int \<Rightarrow> string \<Rightarrow> 'a \<Rightarrow> string \<Rightarrow> string
     \<Rightarrow> (exn + bool) \<times> 'a DatabaseManager" where
  "add_transaction m uid ty amt cat descr =
     execute_insert m (sql_insert_transaction uid ty amt cat descr (server_now m))"

text \<open>\<open>if category_type:\<close> is false for \<open>None\<close> and for the empty string.\<close>

definition get_categories ::
  "'a DatabaseManager \<Rightarrow> int \<Rightarrow> string option \<Rightarrow> (exn + category_row list) \<times> 'a DatabaseManager" where
  "get_categories m uid category_type =
     (case category_type of
        None \<Rightarrow> execute_query m (sql_categories uid)
      | Some ty \<Rightarrow>
          if ty = [] then execute_query m (sql_categories uid)
          else execute_query m (sql_categories_of_type uid ty))"

section \<open>Budgets and reports\<close>

text \<open>
  \<open>datetime.now()\<close> is the argument \<open>now\<close>. The two branches of the period start:
  \<open>now.replace(day=1, hour=0, minute=0, second=0, microsecond=0)\<close>, and
  \<open>now - timedelta(days=now.weekday())\<close> with the time of day then set to zero.
\<close>

definition period_start :: "string \<Rightarrow> datetime \<Rightarrow> exn + datetime" where
  "period_start period now =
     (if period = ''month''
      then Inr (now\<lparr>day := 1, hour := 0, minute := 0, second := 0, microsecond := 0\<rparr>)
      else case add_timedelta now (- weekday now) 0 of
             Inl e \<Rightarrow> Inl e
           | Inr start_date \<Rightarrow>
               Inr (start_date\<lparr>hour := 0, minute := 0, second := 0, microsecond := 0\<rparr>))"

definition check_budget_exceeded ::
  "rat DatabaseManager \<Rightarrow> int \<Rightarrow> string \<Rightarrow> string \<Rightarrow> datetime
     \<Rightarrow> (exn + bool \<times> rat \<times> rat) \<times> rat DatabaseManager" where
  "check_budget_exceeded m uid cat period now =
     (case execute_query m (sql_budget_limit uid cat period) of
        (Inl e, m1) \<Rightarrow> (Inl e, m1)
      | (Inr budget_result, m1) \<Rightarrow>
          (case budget_result of
             [] \<Rightarrow> (Inr (False, 0, 0), m1)
           | limit_amount # _ \<Rightarrow>
               (case period_start period now of
                  Inl e \<Rightarrow> (Inl e, m1)
                | Inr start_date \<Rightarrow>
                    (case execute_query m1 (sql_spent uid cat start_date) of
                       (Inl e, m2) \<Rightarrow> (Inl e, m2)
                     | (Inr spent_result, m2) \<Rightarrow>
                         (let spent_amount = (case spent_result of [] \<Rightarrow> 0 | tot # _ \<Rightarrow> tot)
                          in (Inr (limit_amount < spent_amount, spent_amount, limit_amount),
                              m2))))))"

text \<open>
  The numbers of a summary are Python numbers: the \<open>int\<close> zero the dictionary starts
  with, or the \<open>float\<close> that \<open>float(row['total'])\<close> returns. The float arithmetic is
  an argument \<open>F\<close> of the report functions: the conversion of the store's exact
  \<open>NUMERIC\<close> total, the conversion of an \<open>int\<close>, and the subtraction of two floats,
  so that what is proved holds whatever the rounding is. \<open>py_sub\<close> is Python's \<open>-\<close> on
  such numbers: exact on two \<open>int\<close>s, and otherwise the float subtraction after an
  \<open>int\<close> operand is converted.
\<close>

datatype 'f number = PyInt int | PyFloat 'f

record 'f float_ops =
  float_of_decimal :: "rat \<Rightarrow> 'f"
  float_of_int :: "int \<Rightarrow> 'f"
  float_sub :: "'f \<Rightarrow> 'f \<Rightarrow> 'f"

fun py_sub :: "'f float_ops \<Rightarrow> 'f number \<Rightarrow> 'f number \<Rightarrow> 'f number" where
  "py_sub F (PyInt a) (PyInt b) = PyInt (a - b)"
| "py_sub F (PyInt a) (PyFloat y) = PyFloat (float_sub F (float_of_int F a) y)"
| "py_sub F (PyFloat x) (PyInt b) = PyFloat (float_sub F x (float_of_int F b))"
| "py_sub F (PyFloat x) (PyFloat y) = PyFloat (float_sub F x y)"

record 'f summary =
  income :: "'f number"
  expense :: "'f number"
  income_count :: int
  expense_count :: int
  balance :: "'f number"

definition empty_summary :: "'f summary" where
  "empty_summary =
     \<lparr>income = PyInt 0, expense = PyInt 0, income_count = 0, expense_count = 0,
      balance = PyInt 0\<rparr>"

text \<open>The body of \<open>for row in results\<close>.\<close>

definition summary_row ::
  "'f float_ops \<Rightarrow> 'f summary \<Rightarrow> string \<times> rat \<times> int \<Rightarrow> 'f summary" where
  "summary_row F s row =
     (case row of (ty, tot, cnt) \<Rightarrow>
        if ty = ''income''
          then s\<lparr>income := PyFloat (float_of_decimal F tot), income_count := cnt\<rparr>
        else if ty = ''expense''
          then s\<lparr>expense := PyFloat (float_of_decimal F tot), expense_count := cnt\<rparr>
        else s)"

definition get_monthly_summary ::
  "'f float_ops \<Rightarrow> rat DatabaseManager \<Rightarrow> int \<Rightarrow> int \<Rightarrow> int
     \<Rightarrow> (exn + 'f summary) \<times> rat DatabaseManager" where
  "get_monthly_summary F m uid y mo =
     (case mk_datetime y mo 1 0 0 0 of
        Inl e \<Rightarrow> (Inl e, m)
      | Inr start_date \<Rightarrow>
          (case monthrange_ndays y mo of
             Inl e \<Rightarrow> (Inl e, m)
           | Inr ndays \<Rightarrow>
               (case mk_datetime y mo ndays 23 59 59 of
                  Inl e \<Rightarrow> (Inl e, m)
                | Inr end_date \<Rightarrow>
                    (case execute_query m (sql_totals_by_type uid start_date end_date) of
                       (Inl e, m1) \<Rightarrow> (Inl e, m1)
                     | (Inr results, m1) \<Rightarrow>
                         (let s = foldl (summary_row F) empty_summary results
                          in (Inr (s\<lparr>balance := py_sub F (income s) (expense s)\<rparr>), m1))))))"

text \<open>
  \<open>get_weekly_summary\<close> computes \<open>end_date\<close> (six days, 23:59:59 after the start) and
  then returns \<open>get_monthly_summary\<close> of the start's year and month; \<open>end_date\<close> is
  not used.
\<close>

definition get_weekly_summary ::
  "'f float_ops \<Rightarrow> rat DatabaseManager \<Rightarrow> int \<Rightarrow> datetime
     \<Rightarrow> (exn + 'f summary) \<times> rat DatabaseManager" where
  "get_weekly_summary F m uid start_date =
     (case add_timedelta start_date 6 (23 * 3600 + 59 * 60 + 59) of
        Inl e \<Rightarrow> (Inl e, m)
      | Inr end_date \<Rightarrow> get_monthly_summary F m uid (year start_date) (month start_date))"

section \<open>The dialogue: \<open>FinanceBotHandlers\<close>\<close>

text \<open>
  A session is the dictionary \<open>user_states[user_id]\<close>: the key \<open>state\<close> (one of four
  string constants) and the keys \<open>type\<close>, \<open>amount\<close>, \<open>category\<close>, \<open>description\<close>,
  each absent (\<open>None\<close>) until a step stores it.
\<close>

datatype dialogue_state = waiting_type | waiting_amount | waiting_category | waiting_description

record 'a session =
  s_state :: dialogue_state
  s_type :: "string option"
  s_amount :: "'a option"
  s_category :: "string option"
  s_description :: "string option"

text \<open>
  What the bot sends, by the meaning of the message text; a keyboard is the list of its
  buttons' \<open>callback_data\<close> (with the label, for a category). The calls into the
  transport are recorded in \<open>sent\<close> and are taken not to raise.
\<close>

datatype reply =
  UseHelp | ChooseType "string list" | EnterAmount | InvalidAmount
  | ChooseCategory "(string \<times> string) list" | CategoriesUnavailable | EnterDescription
  | TransactionSaved | SaveFailed | DatabaseUnavailable | OperationCancelled

datatype event = SendMessage int reply | AnswerCallbackQuery string

record message =
  m_from_user_id :: int
  m_chat_id :: int
  m_text :: string

record callback_query =
  cb_id :: string
  cb_from_user_id :: int
  cb_chat_id :: int
  cb_data :: string

record 'a FinanceBotHandlers =
  db_manager :: "'a DatabaseManager option"
  user_states :: "int \<Rightarrow> 'a session option"
  sent :: "event list"

definition send_message :: "'a FinanceBotHandlers \<Rightarrow> int \<Rightarrow> reply \<Rightarrow> 'a FinanceBotHandlers" where
  "send_message b chat r = b\<lparr>sent := sent b @ [SendMessage chat r]\<rparr>"

definition answer_callback_query :: "'a FinanceBotHandlers \<Rightarrow> string \<Rightarrow> 'a FinanceBotHandlers" where
  "answer_callback_query b cid = b\<lparr>sent := sent b @ [AnswerCallbackQuery cid]\<rparr>"

definition clear_user_state :: "'a FinanceBotHandlers \<Rightarrow> int \<Rightarrow> 'a FinanceBotHandlers" where
  "clear_user_state b uid = b\<lparr>user_states := (user_states b)(uid := None)\<rparr>"

subsection \<open>Strings: \<open>startswith\<close>, \<open>split\<close>, \<open>str\<close> of an integer\<close>

definition startswith :: "string \<Rightarrow> string \<Rightarrow> bool" where
  "startswith s pre = (take (length pre) s = pre)"

fun split_on :: "char \<Rightarrow> string \<Rightarrow> string list" where
  "split_on c [] = [[]]"
| "split_on c (x # xs) =
     (if x = c then [] # split_on c xs
      else case split_on c xs of [] \<Rightarrow> [[x]] | p # ps \<Rightarrow> (x # p) # ps)"

text \<open>\<open>parts[1]\<close>: an \<open>IndexError\<close> when the list has fewer than two items.\<close>

definition item1 :: "'b list \<Rightarrow> exn + 'b" where
  "item1 parts = (case parts of a # b # rest \<Rightarrow> Inr b | _ \<Rightarrow> Inl IndexError)"

definition digit_char :: "nat \<Rightarrow> char" where
  "digit_char n = ''0123456789'' ! n"

function digits :: "nat \<Rightarrow> string" where
  "digits n = (if n < 10 then [digit_char n] else digits (n div 10) @ [digit_char (n mod 10)])"
  by pat_completeness auto
termination
  by (relation "measure id") auto

declare digits.simps [simp del]

definition str_int :: "int \<Rightarrow> string" where
  "str_int i = (if i < 0 then CHR ''-'' # digits (nat (- i)) else digits (nat i))"

text \<open>
  The built-in \<open>float\<close> is an argument \<open>pyfloat\<close> of \<open>handle_message\<close>: \<open>None\<close> where
  \<open>float(text)\<close> raises \<open>ValueError\<close>. The theorems about the handler hold for every
  \<open>pyfloat\<close>. \<open>float_plain\<close> is not the whole of \<open>float\<close>: it reads only texts made
  of an optional sign, digits and at most one point, and gives their exact value. It
  stands for \<open>float\<close> at the texts evaluated below (\<open>abc\<close>, \<open>-5\<close>, \<open>300\<close>,
  \<open>12.50\<close>, \<open>lunch\<close>), where the two agree: the letters raise \<open>ValueError\<close> and the
  three numbers are doubles. Its \<open>None\<close> on any other spelling that \<open>float\<close> accepts
  (an exponent, blanks around the number, underscores, \<open>inf\<close>, \<open>nan\<close>) and its
  value where \<open>float\<close> rounds say nothing about \<open>float\<close>.
\<close>

definition is_digit :: "char \<Rightarrow> bool" where
  "is_digit c = (c \<in> set ''0123456789'')"

definition digits_value :: "string \<Rightarrow> nat" where
  "digits_value s = foldl (\<lambda>a c. 10 * a + (of_char c - 48)) 0 s"

definition float_plain :: "string \<Rightarrow> rat option" where
  "float_plain s =
     (let neg = (take 1 s = ''-'');
          body = (if take 1 s = ''-'' \<or> take 1 s = ''+'' then drop 1 s else s);
          ip = takeWhile is_digit body;
          rest = dropWhile is_digit body;
          fp = drop 1 rest
      in if (rest = [] \<or> (take 1 rest = ''.'' \<and> list_all is_digit fp)) \<and> (ip \<noteq> [] \<or> fp \<noteq> [])
         then Some ((if neg then - 1 else 1)
                    * (of_nat (digits_value (ip @ fp)) / 10 ^ length fp))
         else None)"

subsection \<open>Handlers\<close>

definition add_command :: "'a FinanceBotHandlers \<Rightarrow> message \<Rightarrow> 'a FinanceBotHandlers" where
  "add_command b msg =
     send_message
       (b\<lparr>user_states := (user_states b)(m_from_user_id msg \<mapsto>
            \<lparr>s_state = waiting_type, s_type = None, s_amount = None, s_category = None,
             s_description = None\<rparr>)\<rparr>)
       (m_chat_id msg) (ChooseType [''type_income'', ''type_expense''])"

definition cancel_command :: "'a FinanceBotHandlers \<Rightarrow> message \<Rightarrow> 'a FinanceBotHandlers" where
  "cancel_command b msg =
     send_message (clear_user_state b (m_from_user_id msg)) (m_chat_id msg) OperationCancelled"

definition category_button :: "category_row \<Rightarrow> string \<times> string" where
  "category_button cat = (c_name cat, ''cat_'' @ str_int (c_id cat))"

text \<open>
  The result of a handler is the exception that escapes it, if any, and the handler
  object as it is left: the session dictionary is changed in place, so what was stored
  before an exception stays stored.
\<close>

definition handle_message ::
  "(string \<Rightarrow> 'a option) \<Rightarrow> 'a FinanceBotHandlers \<Rightarrow> message
     \<Rightarrow> exn option \<times> 'a FinanceBotHandlers" where
  "handle_message pyfloat b msg =
     (let user_id = m_from_user_id msg; chat = m_chat_id msg in
      case user_states b user_id of
        None \<Rightarrow> (None, send_message b chat UseHelp)
      | Some state_info \<Rightarrow>
          if s_state state_info = waiting_amount then
            (case pyfloat (m_text msg) of
               None \<Rightarrow> (None, send_message b chat InvalidAmount)
             | Some amount \<Rightarrow>
                 (let info1 = state_info\<lparr>s_amount := Some amount, s_state := waiting_category\<rparr>;
                      b1 = b\<lparr>user_states := (user_states b)(user_id \<mapsto> info1)\<rparr>
                  in case db_manager b1 of
                       None \<Rightarrow> (Some AttributeError, b1)
                     | Some m \<Rightarrow>
                         (case get_categories m user_id (s_type info1) of
                            (Inl e, m1) \<Rightarrow> (Some e, b1\<lparr>db_manager := Some m1\<rparr>)
                          | (Inr cats, m1) \<Rightarrow>
                              (None,
                               send_message (b1\<lparr>db_manager := Some m1\<rparr>) chat
                                 (if cats \<noteq> []
                                  then ChooseCategory (map category_button (take 5 cats))
                                  else CategoriesUnavailable)))))
          else if s_state state_info = waiting_description then
            (let info1 = state_info\<lparr>s_description := Some (m_text msg)\<rparr>;
                 b1 = b\<lparr>user_states := (user_states b)(user_id \<mapsto> info1)\<rparr>
             in case db_manager b1 of
                  None \<Rightarrow>
                    (None, clear_user_state (send_message b1 chat DatabaseUnavailable) user_id)
                | Some m \<Rightarrow>
                    (case s_type info1 of
                       None \<Rightarrow> (Some KeyError, b1)
                     | Some ty \<Rightarrow>
                         (case s_amount info1 of
                            None \<Rightarrow> (Some KeyError, b1)
                          | Some amount \<Rightarrow>
                              (case add_transaction m user_id ty amount
                                      (case s_category info1 of None \<Rightarrow> ''Other'' | Some c \<Rightarrow> c)
                                      (m_text msg) of
                                 (Inl e, m1) \<Rightarrow> (Some e, b1\<lparr>db_manager := Some m1\<rparr>)
                               | (Inr success, m1) \<Rightarrow>
                                   (None,
                                    clear_user_state
                                      (send_message (b1\<lparr>db_manager := Some m1\<rparr>) chat
                                         (if success then TransactionSaved else SaveFailed))
                                      user_id)))))
          else (None, b))"

definition handle_callback ::
  "'a FinanceBotHandlers \<Rightarrow> callback_query \<Rightarrow> exn option \<times> 'a FinanceBotHandlers" where
  "handle_callback b call =
     (let user_id = cb_from_user_id call in
      if startswith (cb_data call) ''type_'' then
        (case item1 (split_on CHR ''_'' (cb_data call)) of
           Inl e \<Rightarrow> (Some e, b)
         | Inr transaction_type \<Rightarrow>
             (None,
              answer_callback_query
                (send_message
                   (b\<lparr>user_states := (user_states b)(user_id \<mapsto>
                        \<lparr>s_state = waiting_amount, s_type = Some transaction_type,
                         s_amount = None, s_category = None, s_description = None\<rparr>)\<rparr>)
                   (cb_chat_id call) EnterAmount)
                (cb_id call)))
      else if startswith (cb_data call) ''cat_'' then
        (case item1 (split_on CHR ''_'' (cb_data call)) of
           Inl e \<Rightarrow> (Some e, b)
         | Inr category_id \<Rightarrow>
             (case user_states b user_id of
                None \<Rightarrow> (None, answer_callback_query b (cb_id call))
              | Some state_info \<Rightarrow>
                  (None,
                   answer_callback_query
                     (send_message
                        (b\<lparr>user_states := (user_states b)(user_id \<mapsto>
                             state_info\<lparr>s_category := Some category_id,
                                        s_state := waiting_description\<rparr>)\<rparr>)
                        (cb_chat_id call) EnterDescription)
                     (cb_id call))))
      else (None, answer_callback_query b (cb_id call)))"

section \<open>Durable state of the bot, and sample states\<close>

text \<open>
  The content of the relational store as the handlers reach it: through \<open>db_manager\<close>,
  when there is one.
\<close>

definition durable :: "'a FinanceBotHandlers \<Rightarrow> 'a database option" where
  "durable b = map_option server (db_manager b)"

text \<open>The store is reachable: no call into the driver fails, now or later.\<close>

definition reachable :: "'a DatabaseManager \<Rightarrow> bool" where
  "reachable m = (\<forall>n. driver m n = Success)"

text \<open>
  The words of the specification for the monthly summary: the rows of a user dated from
  the first day of the month at 00:00:00 through its last day at 23:59:59, and the total
  of the rows of one type among them.
\<close>

definition month_rows :: "rat database \<Rightarrow> int \<Rightarrow> int \<Rightarrow> int \<Rightarrow> rat transaction_row list" where
  "month_rows db uid y mo =
     filter (\<lambda>t. t_user_id t = uid
                 \<and> dt_le \<lparr>year = y, month = mo, day = 1, hour = 0, minute = 0, second = 0,
                          microsecond = 0\<rparr> (t_date t)
                 \<and> dt_le (t_date t)
                      \<lparr>year = y, month = mo, day = days_in_month y mo, hour = 23, minute = 59,
                       second = 59, microsecond = 0\<rparr>)
       (transactions db)"

definition total_of :: "string \<Rightarrow> rat transaction_row list \<Rightarrow> rat" where
  "total_of ty rows = sum_list (map t_amount (filter (\<lambda>t. t_type t = ty) rows))"

text \<open>
  For the budget check: the budget rows of a user, category and period, and the total of
  the user's expense rows of a category dated at or after a start.
\<close>

definition budget_rows :: "rat database \<Rightarrow> int \<Rightarrow> string \<Rightarrow> string \<Rightarrow> rat budget_row list" where
  "budget_rows db uid cat period =
     filter (\<lambda>b. b_user_id b = uid \<and> b_category b = cat \<and> b_period b = period) (budgets db)"

definition spent_since :: "rat database \<Rightarrow> int \<Rightarrow> string \<Rightarrow> datetime \<Rightarrow> rat" where
  "spent_since db uid cat start =
     sum_list (map t_amount
       (filter (\<lambda>t. t_user_id t = uid \<and> t_category t = cat \<and> t_type t = ''expense''
                     \<and> dt_le start (t_date t))
          (transactions db)))"

text \<open>The states and inputs at which the theorems below are evaluated.\<close>

definition moment :: "int \<Rightarrow> int \<Rightarrow> int \<Rightarrow> int \<Rightarrow> int \<Rightarrow> int \<Rightarrow> datetime" where
  "moment y m d hh mi ss =
     \<lparr>year = y, month = m, day = d, hour = hh, minute = mi, second = ss, microsecond = 0\<rparr>"

definition always :: "outcome \<Rightarrow> nat \<Rightarrow> outcome" where
  "always out n = out"

definition food :: category_row where
  "food = \<lparr>c_id = 12, c_name = ''Food'', c_type = ''expense'', c_user_id = Some 7\<rparr>"

definition store_with ::
  "rat transaction_row list \<Rightarrow> rat budget_row list \<Rightarrow> rat database" where
  "store_with txs bs =
     \<lparr>users = [\<lparr>u_user_id = 7, u_name = ''ann'', u_currency = ''RUB''\<rparr>],
      transactions = txs,
      categories = [food],
      budgets = bs\<rparr>"

definition manager :: "(nat \<Rightarrow> outcome) \<Rightarrow> bool \<Rightarrow> rat database \<Rightarrow> rat DatabaseManager" where
  "manager drv conn db =
     \<lparr>connection = conn, driver = drv, clock = 0, connect_calls = 0, server = db,
      server_now = moment 2024 2 15 12 0 0\<rparr>"

definition spent :: "int \<Rightarrow> rat \<Rightarrow> string \<Rightarrow> datetime \<Rightarrow> rat transaction_row" where
  "spent uid amt cat d =
     \<lparr>t_user_id = uid, t_type = ''expense'', t_amount = amt, t_category = cat,
      t_description = [], t_date = d\<rparr>"

definition earned :: "int \<Rightarrow> rat \<Rightarrow> string \<Rightarrow> datetime \<Rightarrow> rat transaction_row" where
  "earned uid amt cat d =
     \<lparr>t_user_id = uid, t_type = ''income'', t_amount = amt, t_category = cat,
      t_description = [], t_date = d\<rparr>"

definition ledger :: "rat transaction_row list" where
  "ledger =
     [earned 7 20 ''Gift'' (moment 2024 1 31 23 59 59),
      earned 7 1000 ''Salary'' (moment 2024 2 3 9 0 0),
      spent 7 300 ''Food'' (moment 2024 2 29 23 59 59),
      spent 7 50 ''Food'' (moment 2024 3 1 0 0 0)]"

definition food_budget :: "string \<Rightarrow> rat budget_row" where
  "food_budget period =
     \<lparr>b_user_id = 7, b_category = ''Food'', b_limit_amount = 500, b_period = period\<rparr>"

definition lunches :: "rat transaction_row list" where
  "lunches =
     [spent 7 90 ''Food'' (moment 2024 1 30 13 0 0),
      spent 7 200 ''Food'' (moment 2024 2 2 13 0 0),
      spent 7 250 ''Food'' (moment 2024 2 12 13 0 0),
      spent 7 150 ''Food'' (moment 2024 2 14 13 0 0)]"

text \<open>
  Floats as the unevaluated expressions that produce them, so that an evaluated summary
  shows which conversions and subtractions the code performs and assumes nothing about
  rounding.
\<close>

datatype float_term = FloatOfDecimal rat | FloatOfInt int | FloatSub float_term float_term

definition symbolic :: "float_term float_ops" where
  "symbolic =
     \<lparr>float_of_decimal = FloatOfDecimal, float_of_int = FloatOfInt, float_sub = FloatSub\<rparr>"

definition bot_in :: "rat session option \<Rightarrow> rat FinanceBotHandlers" where
  "bot_in s =
     \<lparr>db_manager = Some (manager (always Success) True (store_with [] [])),
      user_states = (\<lambda>u. if u = 7 then s else None),
      sent = []\<rparr>"

definition session_at :: "dialogue_state \<Rightarrow> rat option \<Rightarrow> string option \<Rightarrow> rat session" where
  "session_at st amt cat =
     \<lparr>s_state = st, s_type = Some ''expense'', s_amount = amt, s_category = cat,
      s_description = None\<rparr>"

definition text_message :: "string \<Rightarrow> message" where
  "text_message txt = \<lparr>m_from_user_id = 7, m_chat_id = 7, m_text = txt\<rparr>"

definition pressed :: "string \<Rightarrow> callback_query" where
  "pressed data = \<lparr>cb_id = ''q'', cb_from_user_id = 7, cb_chat_id = 7, cb_data = data\<rparr>"

section \<open>Properties of the string helpers\<close>

lemma split_on_not_Nil: "split_on c s \<noteq> []"
  by (induction s) (auto split: list.splits)

lemma split_on_no_sep: "c \<notin> set xs \<Longrightarrow> split_on c (xs @ c # ys) = xs # split_on c ys"
  by (induction xs) (auto split: list.splits simp: split_on_not_Nil)

lemma split_on_none: "c \<notin> set xs \<Longrightarrow> split_on c xs = [xs]"
  by (induction xs) (auto split: list.splits)

lemma item1_split_on:
  assumes "c \<notin> set pre"
  shows "\<exists>p ps. split_on c rest = p # ps \<and> item1 (split_on c (pre @ c # rest)) = Inr p"
proof -
  obtain p ps where "split_on c rest = p # ps"
    using split_on_not_Nil [of c rest] by (meson list.exhaust)
  then show ?thesis
    using split_on_no_sep [OF assms, of rest] by (simp add: item1_def)
qed

lemma startswith_decomp:
  assumes "startswith d (pre @ [c])"
  shows "\<exists>rest. d = pre @ c # rest"
proof -
  from assms have "take (Suc (length pre)) d = pre @ [c]"
    by (simp add: startswith_def)
  then have "d = pre @ c # drop (Suc (length pre)) d"
    by (metis append_take_drop_id append_Cons append_Nil append_assoc)
  then show ?thesis ..
qed

text \<open>After \<open>startswith("type_")\<close> or \<open>startswith("cat_")\<close>, \<open>split("_")[1]\<close> never raises.\<close>

lemma item1_type:
  assumes "startswith d ''type_''"
  shows "\<exists>p. item1 (split_on CHR ''_'' d) = Inr p"
proof -
  have a: "CHR ''_'' \<notin> set ''type''" by simp
  have "startswith d (''type'' @ [CHR ''_''])" using assms by simp
  then obtain rest where "d = ''type'' @ CHR ''_'' # rest"
    using startswith_decomp by blast
  then show ?thesis using item1_split_on [OF a, of rest] by blast
qed

lemma item1_cat:
  assumes "startswith d ''cat_''"
  shows "\<exists>p. item1 (split_on CHR ''_'' d) = Inr p"
proof -
  have a: "CHR ''_'' \<notin> set ''cat''" by simp
  have "startswith d (''cat'' @ [CHR ''_''])" using assms by simp
  then obtain rest where "d = ''cat'' @ CHR ''_'' # rest"
    using startswith_decomp by blast
  then show ?thesis using item1_split_on [OF a, of rest] by blast
qed

lemma cat_not_type: "startswith d ''cat_'' \<Longrightarrow> \<not> startswith d ''type_''"
proof -
  assume "startswith d ''cat_''"
  then have "startswith d (''cat'' @ [CHR ''_''])" by simp
  then obtain rest where "d = ''cat'' @ CHR ''_'' # rest"
    using startswith_decomp by blast
  then show ?thesis by (simp add: startswith_def)
qed

section \<open>Properties of the data access layer\<close>

lemma connect_frame:
  "server (snd (connect m)) = server m \<and> driver (snd (connect m)) = driver m
   \<and> server_now (snd (connect m)) = server_now m
   \<and> clock (snd (connect m)) = clock m + 1
   \<and> connect_calls (snd (connect m)) = connect_calls m + 1"
  by (simp add: connect_def Let_def split: outcome.splits)

lemma check_connection_frame:
  "server (snd (check_connection m)) = server m \<and> driver (snd (check_connection m)) = driver m
   \<and> server_now (snd (check_connection m)) = server_now m
   \<and> connect_calls (snd (check_connection m)) = connect_calls m"
  by (simp add: check_connection_def)

lemma reconnect_if_lost_eq:
  "reconnect_if_lost m =
     (if fst (check_connection m) then (Inr True, snd (check_connection m))
      else connect (snd (check_connection m)))"
  by (simp add: reconnect_if_lost_def check_connection_def)

lemma reconnect_if_lost_frame:
  "server (snd (reconnect_if_lost m)) = server m \<and> driver (snd (reconnect_if_lost m)) = driver m
   \<and> server_now (snd (reconnect_if_lost m)) = server_now m
   \<and> connect_calls (snd (reconnect_if_lost m)) \<le> connect_calls m + 1"
  by (simp add: reconnect_if_lost_eq connect_frame check_connection_frame)

lemma execute_query_calls:
  "connect_calls (snd (execute_query m q)) = connect_calls (snd (reconnect_if_lost m))"
  by (cases "reconnect_if_lost m")
     (simp add: execute_query_def Let_def split: sum.splits bool.splits outcome.splits)

lemma execute_insert_calls:
  "connect_calls (snd (execute_insert m stmt)) = connect_calls (snd (reconnect_if_lost m))"
  by (cases "reconnect_if_lost m")
     (simp add: execute_insert_def Let_def split: sum.splits bool.splits outcome.splits option.splits)

lemma execute_update_calls:
  "connect_calls (snd (execute_update m stmt)) = connect_calls (snd (reconnect_if_lost m))"
  by (cases "reconnect_if_lost m")
     (simp add: execute_update_def Let_def
        split: sum.splits bool.splits outcome.splits option.splits prod.splits)

lemma execute_query_frame:
  "server (snd (execute_query m q)) = server m \<and> driver (snd (execute_query m q)) = driver m
   \<and> server_now (snd (execute_query m q)) = server_now m"
  using reconnect_if_lost_frame [of m]
  by (cases "reconnect_if_lost m")
     (simp add: execute_query_def Let_def split: sum.splits bool.splits outcome.splits)

lemma execute_insert_frame:
  "driver (snd (execute_insert m stmt)) = driver m
   \<and> server_now (snd (execute_insert m stmt)) = server_now m
   \<and> (server (snd (execute_insert m stmt)) = server m
        \<or> (fst (execute_insert m stmt) = Inr True
            \<and> stmt (server m) = Some (server (snd (execute_insert m stmt)))))"
  using reconnect_if_lost_frame [of m]
  by (cases "reconnect_if_lost m")
     (simp add: execute_insert_def Let_def split: sum.splits bool.splits outcome.splits option.splits)

section \<open>The branches of the handlers\<close>

lemma handle_callback_type:
  assumes "startswith (cb_data call) ''type_''"
    and "item1 (split_on CHR ''_'' (cb_data call)) = Inr kind"
  shows "handle_callback b call =
           (None,
            answer_callback_query
              (send_message
                 (b\<lparr>user_states := (user_states b)(cb_from_user_id call \<mapsto>
                      \<lparr>s_state = waiting_amount, s_type = Some kind, s_amount = None,
                       s_category = None, s_description = None\<rparr>)\<rparr>)
                 (cb_chat_id call) EnterAmount)
              (cb_id call))"
  using assms by (simp add: handle_callback_def)

lemma handle_callback_cat:
  assumes "startswith (cb_data call) ''cat_''"
    and "item1 (split_on CHR ''_'' (cb_data call)) = Inr category_id"
  shows "handle_callback b call =
           (case user_states b (cb_from_user_id call) of
              None \<Rightarrow> (None, answer_callback_query b (cb_id call))
            | Some state_info \<Rightarrow>
                (None,
                 answer_callback_query
                   (send_message
                      (b\<lparr>user_states := (user_states b)(cb_from_user_id call \<mapsto>
                           state_info\<lparr>s_category := Some category_id,
                                      s_state := waiting_description\<rparr>)\<rparr>)
                      (cb_chat_id call) EnterDescription)
                   (cb_id call)))"
  using assms cat_not_type [OF assms(1)] by (simp add: handle_callback_def Let_def)

lemma handle_callback_other:
  assumes "\<not> startswith (cb_data call) ''type_''" and "\<not> startswith (cb_data call) ''cat_''"
  shows "handle_callback b call = (None, answer_callback_query b (cb_id call))"
  using assms by (simp add: handle_callback_def)

lemma handle_callback_db_manager: "db_manager (snd (handle_callback b call)) = db_manager b"
proof (cases "startswith (cb_data call) ''type_''")
  case True
  then obtain kind where "item1 (split_on CHR ''_'' (cb_data call)) = Inr kind"
    using item1_type by blast
  with True show ?thesis
    by (simp add: handle_callback_type send_message_def answer_callback_query_def)
next
  case nt: False
  show ?thesis
  proof (cases "startswith (cb_data call) ''cat_''")
    case True
    then obtain cid where "item1 (split_on CHR ''_'' (cb_data call)) = Inr cid"
      using item1_cat by blast
    with True show ?thesis
      by (simp add: handle_callback_cat send_message_def answer_callback_query_def
          split: option.splits)
  next
    case False
    with nt show ?thesis
      by (simp add: handle_callback_other answer_callback_query_def)
  qed
qed

lemma handle_message_idle:
  assumes "user_states b (m_from_user_id msg) = None"
  shows "handle_message pyfloat b msg = (None, send_message b (m_chat_id msg) UseHelp)"
  using assms by (simp add: handle_message_def)

lemma handle_message_invalid_amount:
  assumes "user_states b (m_from_user_id msg) = Some s" and "s_state s = waiting_amount"
    and "pyfloat (m_text msg) = None"
  shows "handle_message pyfloat b msg = (None, send_message b (m_chat_id msg) InvalidAmount)"
  using assms by (simp add: handle_message_def)

lemma handle_message_amount:
  assumes "user_states b (m_from_user_id msg) = Some s" and "s_state s = waiting_amount"
    and "pyfloat (m_text msg) = Some a"
  shows "handle_message pyfloat b msg =
           (case db_manager b of
              None \<Rightarrow>
                (Some AttributeError,
                 b\<lparr>user_states := (user_states b)(m_from_user_id msg \<mapsto>
                      s\<lparr>s_amount := Some a, s_state := waiting_category\<rparr>)\<rparr>)
            | Some m \<Rightarrow>
                (case get_categories m (m_from_user_id msg) (s_type s) of
                   (Inl e, m1) \<Rightarrow>
                     (Some e,
                      b\<lparr>user_states := (user_states b)(m_from_user_id msg \<mapsto>
                           s\<lparr>s_amount := Some a, s_state := waiting_category\<rparr>),
                        db_manager := Some m1\<rparr>)
                 | (Inr cats, m1) \<Rightarrow>
                     (None,
                      send_message
                        (b\<lparr>user_states := (user_states b)(m_from_user_id msg \<mapsto>
                             s\<lparr>s_amount := Some a, s_state := waiting_category\<rparr>),
                          db_manager := Some m1\<rparr>)
                        (m_chat_id msg)
                        (if cats \<noteq> [] then ChooseCategory (map category_button (take 5 cats))
                         else CategoriesUnavailable))))"
  using assms by (simp add: handle_message_def Let_def cong: option.case_cong)

lemma handle_message_description:
  assumes "user_states b (m_from_user_id msg) = Some s" and "s_state s = waiting_description"
  shows "handle_message pyfloat b msg =
           (case db_manager b of
              None \<Rightarrow>
                (None,
                 clear_user_state
                   (send_message
                      (b\<lparr>user_states := (user_states b)(m_from_user_id msg \<mapsto>
                           s\<lparr>s_description := Some (m_text msg)\<rparr>)\<rparr>)
                      (m_chat_id msg) DatabaseUnavailable)
                   (m_from_user_id msg))
            | Some m \<Rightarrow>
                (case s_type s of
                   None \<Rightarrow>
                     (Some KeyError,
                      b\<lparr>user_states := (user_states b)(m_from_user_id msg \<mapsto>
                           s\<lparr>s_description := Some (m_text msg)\<rparr>)\<rparr>)
                 | Some ty \<Rightarrow>
                     (case s_amount s of
                        None \<Rightarrow>
                          (Some KeyError,
                           b\<lparr>user_states := (user_states b)(m_from_user_id msg \<mapsto>
                                s\<lparr>s_description := Some (m_text msg)\<rparr>)\<rparr>)
                      | Some amount \<Rightarrow>
                          (case add_transaction m (m_from_user_id msg) ty amount
                                  (case s_category s of None \<Rightarrow> ''Other'' | Some c \<Rightarrow> c)
                                  (m_text msg) of
                             (Inl e, m1) \<Rightarrow>
                               (Some e,
                                b\<lparr>user_states := (user_states b)(m_from_user_id msg \<mapsto>
                                     s\<lparr>s_description := Some (m_text msg)\<rparr>),
                                   db_manager := Some m1\<rparr>)
                           | (Inr success, m1) \<Rightarrow>
                               (None,
                                clear_user_state
                                  (send_message
                                     (b\<lparr>user_states := (user_states b)(m_from_user_id msg \<mapsto>
                                          s\<lparr>s_description := Some (m_text msg)\<rparr>),
                                        db_manager := Some m1\<rparr>)
                                     (m_chat_id msg)
                                     (if success then TransactionSaved else SaveFailed))
                                  (m_from_user_id msg))))))"
  using assms by (simp add: handle_message_def Let_def cong: option.case_cong)

lemma handle_message_other_state:
  assumes "user_states b (m_from_user_id msg) = Some s" and "s_state s \<noteq> waiting_amount"
    and "s_state s \<noteq> waiting_description"
  shows "handle_message pyfloat b msg = (None, b)"
  using assms by (simp add: handle_message_def)

lemma digit_char_in: "n < 10 \<Longrightarrow> digit_char n \<in> set ''0123456789''"
  unfolding digit_char_def by (rule nth_mem) simp

lemma digits_chars: "set (digits n) \<subseteq> set ''0123456789''"
proof (induction n rule: digits.induct)
  case (1 n)
  show ?case
  proof (cases "n < 10")
    case True
    then show ?thesis
      using digit_char_in [of n] by (subst digits.simps) simp
  next
    case False
    have "n mod 10 < 10" by simp
    then have "digit_char (n mod 10) \<in> set ''0123456789''" by (rule digit_char_in)
    with False "1" show ?thesis
      by (subst digits.simps) simp
  qed
qed

lemma str_int_no_underscore: "CHR ''_'' \<notin> set (str_int i)"
proof -
  have "CHR ''_'' \<notin> set ''0123456789''" by simp
  then have "CHR ''_'' \<notin> set (digits n)" for n
    using digits_chars [of n] by blast
  then show ?thesis by (simp add: str_int_def)
qed

lemma category_button_data:
  "startswith (snd (category_button cat)) ''cat_''
   \<and> item1 (split_on CHR ''_'' (snd (category_button cat))) = Inr (str_int (c_id cat))"
proof -
  have a: "CHR ''_'' \<notin> set ''cat''" by simp
  have "split_on CHR ''_'' (''cat'' @ CHR ''_'' # str_int (c_id cat))
          = ''cat'' # split_on CHR ''_'' (str_int (c_id cat))"
    by (rule split_on_no_sep [OF a])
  then have "split_on CHR ''_'' (''cat'' @ CHR ''_'' # str_int (c_id cat))
          = [''cat'', str_int (c_id cat)]"
    by (simp add: split_on_none [OF str_int_no_underscore])
  then show ?thesis
    by (simp add: category_button_def startswith_def item1_def)
qed

section \<open>What the dialogue writes to the store\<close>

lemma execute_insert_success:
  "fst (execute_insert m stmt) = Inr True \<Longrightarrow> stmt (server m) = Some (server (snd (execute_insert m stmt)))"
  using reconnect_if_lost_frame [of m]
  by (cases "reconnect_if_lost m")
     (simp add: execute_insert_def Let_def split: sum.splits bool.splits outcome.splits option.splits)

lemma execute_insert_failure:
  "fst (execute_insert m stmt) \<noteq> Inr True \<Longrightarrow> server (snd (execute_insert m stmt)) = server m"
  using reconnect_if_lost_frame [of m]
  by (cases "reconnect_if_lost m")
     (simp add: execute_insert_def Let_def split: sum.splits bool.splits outcome.splits option.splits)

lemma add_transaction_server:
  "server (snd (add_transaction m uid ty a cat d)) =
     (if fst (add_transaction m uid ty a cat d) = Inr True
      then (server m)\<lparr>transactions := transactions (server m)
             @ [\<lparr>t_user_id = uid, t_type = ty, t_amount = a, t_category = cat,
                 t_description = d, t_date = server_now m\<rparr>]\<rparr>
      else server m)"
proof (cases "fst (add_transaction m uid ty a cat d) = Inr True")
  case True
  then have "sql_insert_transaction uid ty a cat d (server_now m) (server m)
               = Some (server (snd (add_transaction m uid ty a cat d)))"
    unfolding add_transaction_def by (rule execute_insert_success)
  with True show ?thesis
    by (auto simp: sql_insert_transaction_def split: if_splits)
next
  case False
  then show ?thesis
    unfolding add_transaction_def by (simp add: execute_insert_failure)
qed

lemma get_categories_server: "server (snd (get_categories m uid ty)) = server m"
  by (simp add: get_categories_def execute_query_frame split: option.splits)

lemma durable_amount_step:
  assumes "user_states b (m_from_user_id msg) = Some s" and "s_state s = waiting_amount"
  shows "durable (snd (handle_message pyfloat b msg)) = durable b"
proof (cases "pyfloat (m_text msg)")
  case None
  with assms show ?thesis
    by (simp add: handle_message_invalid_amount durable_def send_message_def)
next
  case (Some a)
  show ?thesis
  proof (cases "db_manager b")
    case None
    with assms Some show ?thesis
      by (simp add: handle_message_amount durable_def)
  next
    case (Some m)
    obtain r m1 where g: "get_categories m (m_from_user_id msg) (s_type s) = (r, m1)"
      by (cases "get_categories m (m_from_user_id msg) (s_type s)")
    then have "server m1 = server m"
      using get_categories_server [of m "m_from_user_id msg" "s_type s"] by simp
    with assms \<open>pyfloat (m_text msg) = Some a\<close> Some g show ?thesis
      by (cases r) (simp_all add: handle_message_amount durable_def send_message_def)
  qed
qed

lemma durable_non_terminal:
  assumes "\<forall>s. user_states b (m_from_user_id msg) = Some s \<longrightarrow> s_state s \<noteq> waiting_description"
  shows "durable (snd (handle_message pyfloat b msg)) = durable b"
proof (cases "user_states b (m_from_user_id msg)")
  case None
  then show ?thesis
    by (simp add: handle_message_idle durable_def send_message_def)
next
  case (Some s)
  with assms have nd: "s_state s \<noteq> waiting_description" by simp
  show ?thesis
  proof (cases "s_state s = waiting_amount")
    case True
    with Some show ?thesis by (rule durable_amount_step)
  next
    case False
    with Some nd show ?thesis by (simp add: handle_message_other_state)
  qed
qed

lemma terminal_step_db_manager:
  assumes "user_states b (m_from_user_id msg) = Some s" and "s_state s = waiting_description"
    and "db_manager b = Some m" and "s_type s = Some ty" and "s_amount s = Some a"
  shows "db_manager (snd (handle_message pyfloat b msg)) =
           Some (snd (add_transaction m (m_from_user_id msg) ty a
                        (case s_category s of None \<Rightarrow> ''Other'' | Some c \<Rightarrow> c) (m_text msg)))"
proof -
  obtain r m1 where g: "add_transaction m (m_from_user_id msg) ty a
                        (case s_category s of None \<Rightarrow> ''Other'' | Some c \<Rightarrow> c) (m_text msg) = (r, m1)"
    by (cases "add_transaction m (m_from_user_id msg) ty a
                        (case s_category s of None \<Rightarrow> ''Other'' | Some c \<Rightarrow> c) (m_text msg)")
  with assms show ?thesis
    by (cases r) (simp_all add: handle_message_description send_message_def clear_user_state_def)
qed

lemma terminal_step_missing_field:
  assumes "user_states b (m_from_user_id msg) = Some s" and "s_state s = waiting_description"
    and "s_type s = None \<or> s_amount s = None \<or> db_manager b = None"
  shows "db_manager (snd (handle_message pyfloat b msg)) = db_manager b"
  using assms
  by (auto simp: handle_message_description send_message_def clear_user_state_def
      split: option.splits)

section \<open>The amount step\<close>

lemma handle_message_amount_states:
  assumes "user_states b (m_from_user_id msg) = Some s" and "s_state s = waiting_amount"
    and p: "pyfloat (m_text msg) = Some a"
  shows "user_states (snd (handle_message pyfloat b msg)) =
          (user_states b)(m_from_user_id msg \<mapsto> s\<lparr>s_amount := Some a, s_state := waiting_category\<rparr>)"
proof (cases "db_manager b")
  case None
  with assms show ?thesis by (simp add: handle_message_amount)
next
  case (Some m)
  obtain r m1 where "get_categories m (m_from_user_id msg) (s_type s) = (r, m1)"
    by (cases "get_categories m (m_from_user_id msg) (s_type s)")
  with assms Some show ?thesis
    by (cases r) (simp_all add: handle_message_amount send_message_def)
qed

text \<open>
  C3, as the code has it. For every session in \<open>waiting_amount\<close> and every text: when
  \<open>float(text)\<close> raises \<open>ValueError\<close> the handler only sends the reprompt (the session
  store, with every captured field, is as before); when \<open>float(text)\<close> returns a value,
  whatever its sign, the session moves to \<open>waiting_category\<close> with that amount stored.
\<close>

theorem amount_step_accepts_any_float:
  assumes "user_states b (m_from_user_id msg) = Some s" and "s_state s = waiting_amount"
  shows "(pyfloat (m_text msg) = None \<longrightarrow>
            handle_message pyfloat b msg = (None, send_message b (m_chat_id msg) InvalidAmount))
       \<and> (\<forall>a. pyfloat (m_text msg) = Some a \<longrightarrow>
            user_states (snd (handle_message pyfloat b msg)) =
              (user_states b)(m_from_user_id msg \<mapsto>
                 s\<lparr>s_amount := Some a, s_state := waiting_category\<rparr>))"
  using assms by (simp add: handle_message_invalid_amount handle_message_amount_states)

theorem amount_step_accepts_any_float_witness:
  "handle_message float_plain (bot_in (Some (session_at waiting_amount None None)))
       (text_message ''abc'')
     = (None, send_message (bot_in (Some (session_at waiting_amount None None))) 7 InvalidAmount)
   \<and> user_states (snd (handle_message float_plain
         (bot_in (Some (session_at waiting_amount None None))) (text_message ''12.50''))) 7
     = Some (session_at waiting_category (Some (25 / 2)) None)"
proof -
  let ?b = "bot_in (Some (session_at waiting_amount None None))"
  have s: "user_states ?b (m_from_user_id (text_message ''abc'')) = Some (session_at waiting_amount None None)"
    "user_states ?b (m_from_user_id (text_message ''12.50'')) = Some (session_at waiting_amount None None)"
    by (simp_all add: bot_in_def text_message_def)
  have w: "s_state (session_at waiting_amount None None) = waiting_amount"
    by (simp add: session_at_def)
  have f1: "float_plain (m_text (text_message ''abc'')) = None"
    by (simp add: float_plain_def is_digit_def text_message_def)
  have f2: "float_plain (m_text (text_message ''12.50'')) = Some (25 / 2)"
    by (simp add: float_plain_def is_digit_def digits_value_def text_message_def)
  have c: "m_chat_id (text_message ''abc'') = 7" "m_from_user_id (text_message ''12.50'') = 7"
    by (simp_all add: text_message_def)
  have e: "(session_at waiting_amount None None)\<lparr>s_amount := Some (25 / 2), s_state := waiting_category\<rparr>
             = session_at waiting_category (Some (25 / 2)) None"
    by (simp add: session_at_def)
  have a: "handle_message float_plain ?b (text_message ''abc'')
             = (None, send_message ?b (m_chat_id (text_message ''abc'')) InvalidAmount)"
    using amount_step_accepts_any_float [OF s(1) w, of float_plain] f1 by blast
  have "user_states (snd (handle_message float_plain ?b (text_message ''12.50''))) =
          (user_states ?b)(m_from_user_id (text_message ''12.50'') \<mapsto>
             (session_at waiting_amount None None)\<lparr>s_amount := Some (25 / 2),
                                                    s_state := waiting_category\<rparr>)"
    using amount_step_accepts_any_float [OF s(2) w, of float_plain] f2 by blast
  with a c e show ?thesis by simp
qed

text \<open>
  The text \<open>-5\<close> is not a positive number, and the session moves on with the amount
  \<open>-5\<close> stored.
\<close>

theorem amount_step_negative_counterexample:
  "float_plain ''-5'' = Some (- 5) \<and> \<not> (0 :: rat) < - 5
   \<and> user_states (snd (handle_message float_plain
         (bot_in (Some (session_at waiting_amount None None))) (text_message ''-5''))) 7
     = Some (session_at waiting_category (Some (- 5)) None)"
proof -
  let ?b = "bot_in (Some (session_at waiting_amount None None))"
  have f: "float_plain ''-5'' = Some (- 5)"
    by (simp add: float_plain_def is_digit_def digits_value_def)
  have s: "user_states ?b (m_from_user_id (text_message ''-5'')) = Some (session_at waiting_amount None None)"
    by (simp add: bot_in_def text_message_def)
  have w: "s_state (session_at waiting_amount None None) = waiting_amount"
    by (simp add: session_at_def)
  have m: "float_plain (m_text (text_message ''-5'')) = Some (- 5)"
    using f by (simp add: text_message_def)
  have "user_states (snd (handle_message float_plain ?b (text_message ''-5''))) 7
          = Some (session_at waiting_category (Some (- 5)) None)"
    using handle_message_amount_states [where pyfloat = float_plain, OF s w m]
    by (simp add: text_message_def session_at_def)
  with f show ?thesis by simp
qed

section \<open>Cancellation\<close>

text \<open>
  C7. Whatever the session state, \<open>/cancel\<close> removes the user's session and leaves the
  store as it was (no transaction is written), and a text message of that user handled
  next gets the guidance reply of a user without a session: nothing else changes, so the
  text is not taken as an amount or a description.
\<close>

theorem cancel_then_message_is_idle:
  "user_states (cancel_command b c) (m_from_user_id c) = None
   \<and> durable (cancel_command b c) = durable b
   \<and> handle_message pyfloat (cancel_command b c) (msg\<lparr>m_from_user_id := m_from_user_id c\<rparr>)
       = (None, send_message (cancel_command b c) (m_chat_id msg) UseHelp)"
  by (simp add: cancel_command_def clear_user_state_def send_message_def handle_message_def
      durable_def)

theorem cancel_then_message_is_idle_witness:
  "user_states (bot_in (Some (session_at waiting_category (Some 300) None))) 7
     = Some (session_at waiting_category (Some 300) None)
   \<and> user_states (cancel_command (bot_in (Some (session_at waiting_category (Some 300) None)))
                    (text_message ''/cancel'')) 7 = None
   \<and> handle_message float_plain
         (cancel_command (bot_in (Some (session_at waiting_category (Some 300) None)))
            (text_message ''/cancel''))
         (text_message ''lunch'')
       = (None,
          (bot_in None)\<lparr>sent := [SendMessage 7 OperationCancelled, SendMessage 7 UseHelp]\<rparr>)"
proof -
  let ?b = "bot_in (Some (session_at waiting_category (Some 300) None))"
  have e: "(text_message ''lunch'')\<lparr>m_from_user_id := m_from_user_id (text_message ''/cancel'')\<rparr>
             = text_message ''lunch''"
    by (simp add: text_message_def)
  have u: "user_states ?b 7 = Some (session_at waiting_category (Some 300) None)"
    by (simp add: bot_in_def)
  have c: "send_message (cancel_command ?b (text_message ''/cancel'')) (m_chat_id (text_message ''lunch'')) UseHelp
             = (bot_in None)\<lparr>sent := [SendMessage 7 OperationCancelled, SendMessage 7 UseHelp]\<rparr>"
    by (simp add: cancel_command_def clear_user_state_def send_message_def bot_in_def
        text_message_def fun_eq_iff)
  have m: "m_from_user_id (text_message ''/cancel'') = 7"
    by (simp add: text_message_def)
  show ?thesis
    using cancel_then_message_is_idle [of ?b "text_message ''/cancel''" float_plain "text_message ''lunch''"]
      e u c m
    by simp
qed

section \<open>Callbacks of a user without a session\<close>

text \<open>
  C4, as the code has it. For a user without a session: a callback whose data does not
  start with \<open>type_\<close> (a category selection, or anything else) leaves the session store
  as it was; a kind selection (data \<open>type_...\<close>) starts the dialogue: it stores a new
  session in \<open>waiting_amount\<close> that holds the selected kind and nothing else.
\<close>

theorem callback_without_session:
  assumes "user_states b (cb_from_user_id call) = None"
  shows "(\<not> startswith (cb_data call) ''type_'' \<longrightarrow>
            user_states (snd (handle_callback b call)) = user_states b)
       \<and> (startswith (cb_data call) ''type_'' \<longrightarrow>
            (\<exists>kind. item1 (split_on CHR ''_'' (cb_data call)) = Inr kind
               \<and> user_states (snd (handle_callback b call))
                 = (user_states b)(cb_from_user_id call \<mapsto>
                     \<lparr>s_state = waiting_amount, s_type = Some kind, s_amount = None,
                      s_category = None, s_description = None\<rparr>)))"
proof (cases "startswith (cb_data call) ''type_''")
  case True
  then obtain kind where k: "item1 (split_on CHR ''_'' (cb_data call)) = Inr kind"
    using item1_type by blast
  with True show ?thesis
    by (simp add: handle_callback_type send_message_def answer_callback_query_def)
next
  case nt: False
  show ?thesis
  proof (cases "startswith (cb_data call) ''cat_''")
    case True
    then obtain cid where "item1 (split_on CHR ''_'' (cb_data call)) = Inr cid"
      using item1_cat by blast
    with True nt assms show ?thesis
      by (simp add: handle_callback_cat answer_callback_query_def)
  next
    case False
    with nt show ?thesis
      by (simp add: handle_callback_other answer_callback_query_def)
  qed
qed

theorem callback_without_session_witness:
  "user_states (bot_in None) 7 = None
   \<and> \<not> startswith ''cat_12'' ''type_''
   \<and> user_states (snd (handle_callback (bot_in None) (pressed ''cat_12''))) = user_states (bot_in None)
   \<and> startswith ''type_income'' ''type_''
   \<and> (\<exists>kind. item1 (split_on CHR ''_'' ''type_income'') = Inr kind
        \<and> user_states (snd (handle_callback (bot_in None) (pressed ''type_income'')))
            = (user_states (bot_in None))(7 \<mapsto>
                \<lparr>s_state = waiting_amount, s_type = Some kind, s_amount = None,
                 s_category = None, s_description = None\<rparr>))"
proof -
  have u: "user_states (bot_in None) (cb_from_user_id (pressed d)) = None" for d
    by (simp add: bot_in_def pressed_def)
  have d: "cb_data (pressed d) = d" "cb_from_user_id (pressed d) = 7" for d
    by (simp_all add: pressed_def)
  have p: "\<not> startswith ''cat_12'' ''type_''" "startswith ''type_income'' ''type_''"
    by (simp_all add: startswith_def)
  show ?thesis
    using callback_without_session [OF u [of "''cat_12''"]]
      callback_without_session [OF u [of "''type_income''"]] p u [of "''cat_12''"]
    by (simp add: d)
qed

text \<open>
  A user without a session presses a kind button of an earlier keyboard: the callback
  creates a session.
\<close>

theorem kind_selection_creates_session_counterexample:
  "user_states (bot_in None) 7 = None
   \<and> user_states (snd (handle_callback (bot_in None) (pressed ''type_income''))) 7
       = Some \<lparr>s_state = waiting_amount, s_type = Some ''income'', s_amount = None,
                s_category = None, s_description = None\<rparr>"
  by (simp add: handle_callback_def startswith_def item1_def bot_in_def pressed_def
      send_message_def answer_callback_query_def)

section \<open>Only the terminal step writes\<close>

lemma durable_terminal_step:
  assumes "user_states b (m_from_user_id msg) = Some s" and "s_state s = waiting_description"
    and "db_manager b = Some m" and "s_type s = Some ty" and "s_amount s = Some a"
  shows "durable (snd (handle_message pyfloat b msg)) =
           Some (if fst (add_transaction m (m_from_user_id msg) ty a
                           (case s_category s of None \<Rightarrow> ''Other'' | Some c \<Rightarrow> c) (m_text msg))
                      = Inr True
                 then (server m)\<lparr>transactions := transactions (server m)
                        @ [\<lparr>t_user_id = m_from_user_id msg, t_type = ty, t_amount = a,
                            t_category = (case s_category s of None \<Rightarrow> ''Other'' | Some c \<Rightarrow> c),
                            t_description = m_text msg, t_date = server_now m\<rparr>]\<rparr>
                 else server m)"
  unfolding durable_def terminal_step_db_manager [OF assms]
  by (simp add: add_transaction_server)

lemma sample_add_transaction:
  "fst (add_transaction (manager (always Success) True (store_with txs bs)) 7 ty a cat d) = Inr True"
  by (simp add: add_transaction_def execute_insert_def reconnect_if_lost_def check_connection_def
      manager_def always_def sql_insert_transaction_def store_with_def in_bigint_def)

text \<open>
  C8. The steps before the terminal one leave the store as it was: \<open>/add\<close>, \<open>/cancel\<close>,
  every callback (kind and category selection), and every text message of a user whose
  session is not in \<open>waiting_description\<close> (the amount step among them) change at most
  the session store. The text message handled in \<open>waiting_description\<close> is the one
  step that writes: when \<open>add_transaction\<close> returns \<open>True\<close> the store is the old one
  with exactly the new transaction row appended, and otherwise (a failure, or a session
  without kind or amount, or no manager) it is the old one.
\<close>

theorem only_terminal_step_writes:
  "durable (add_command b msg) = durable b
   \<and> durable (cancel_command b msg) = durable b
   \<and> durable (snd (handle_callback b call)) = durable b
   \<and> ((\<forall>s. user_states b (m_from_user_id msg) = Some s \<longrightarrow> s_state s \<noteq> waiting_description)
        \<longrightarrow> durable (snd (handle_message pyfloat b msg)) = durable b)
   \<and> (\<forall>s m ty a.
         user_states b (m_from_user_id msg) = Some s \<and> s_state s = waiting_description
         \<and> db_manager b = Some m \<and> s_type s = Some ty \<and> s_amount s = Some a
        \<longrightarrow> durable (snd (handle_message pyfloat b msg)) =
             Some (if fst (add_transaction m (m_from_user_id msg) ty a
                             (case s_category s of None \<Rightarrow> ''Other'' | Some c \<Rightarrow> c)
                             (m_text msg)) = Inr True
                   then (server m)\<lparr>transactions := transactions (server m)
                          @ [\<lparr>t_user_id = m_from_user_id msg, t_type = ty, t_amount = a,
                              t_category = (case s_category s of None \<Rightarrow> ''Other'' | Some c \<Rightarrow> c),
                              t_description = m_text msg, t_date = server_now m\<rparr>]\<rparr>
                   else server m))
   \<and> (\<forall>s. user_states b (m_from_user_id msg) = Some s \<and> s_state s = waiting_description
            \<and> (s_type s = None \<or> s_amount s = None \<or> db_manager b = None)
        \<longrightarrow> durable (snd (handle_message pyfloat b msg)) = durable b)"
proof -
  have a: "durable (add_command b msg) = durable b"
    by (simp add: add_command_def send_message_def durable_def)
  have b: "durable (cancel_command b msg) = durable b"
    by (simp add: cancel_command_def send_message_def clear_user_state_def durable_def)
  have c: "durable (snd (handle_callback b call)) = durable b"
    by (simp add: durable_def handle_callback_db_manager)
  have d: "durable (snd (handle_message pyfloat b msg)) = durable b"
    if "user_states b (m_from_user_id msg) = Some s" and "s_state s = waiting_description"
      and "s_type s = None \<or> s_amount s = None \<or> db_manager b = None" for s
    unfolding durable_def using that by (simp add: terminal_step_missing_field)
  from a b c d show ?thesis
    using durable_non_terminal [of b msg pyfloat] durable_terminal_step [of b msg _ _ _ _ pyfloat]
    by blast
qed

theorem only_terminal_step_writes_witness:
  "durable (add_command (bot_in None) (text_message ''/add'')) = durable (bot_in None)
   \<and> durable (snd (handle_callback (bot_in None) (pressed ''type_expense''))) = durable (bot_in None)
   \<and> durable (snd (handle_message float_plain
         (bot_in (Some (session_at waiting_amount None None))) (text_message ''300'')))
       = Some (store_with [] [])
   \<and> durable (snd (handle_message float_plain
         (bot_in (Some (session_at waiting_description (Some 300) (Some ''12''))))
         (text_message ''lunch'')))
       = Some (store_with [spent 7 300 ''12'' (moment 2024 2 15 12 0 0)\<lparr>t_description := ''lunch''\<rparr>] [])
   \<and> durable (snd (handle_message float_plain
         (bot_in (Some ((session_at waiting_description None (Some ''12''))\<lparr>s_type := None\<rparr>)))
         (text_message ''lunch'')))
       = Some (store_with [] [])"
proof -
  let ?m = "manager (always Success) True (store_with [] [])"
  let ?a = "bot_in (Some (session_at waiting_amount None None))"
  let ?k = "bot_in (Some ((session_at waiting_description None (Some ''12''))\<lparr>s_type := None\<rparr>))"
  have k: "user_states ?k (m_from_user_id (text_message ''lunch''))
             = Some ((session_at waiting_description None (Some ''12''))\<lparr>s_type := None\<rparr>)
           \<and> s_state ((session_at waiting_description None (Some ''12''))\<lparr>s_type := None\<rparr>)
               = waiting_description
           \<and> (s_type ((session_at waiting_description None (Some ''12''))\<lparr>s_type := None\<rparr>) = None
              \<or> s_amount ((session_at waiting_description None (Some ''12''))\<lparr>s_type := None\<rparr>) = None
              \<or> db_manager ?k = None)"
    by (simp add: bot_in_def text_message_def session_at_def)
  have kk: "durable (snd (handle_message float_plain ?k (text_message ''lunch''))) = durable ?k"
    using only_terminal_step_writes [of ?k "text_message ''lunch''" "pressed ''type_expense''" float_plain]
      k by blast
  let ?d = "bot_in (Some (session_at waiting_description (Some 300) (Some ''12'')))"
  have na: "\<forall>s. user_states ?a (m_from_user_id (text_message ''300'')) = Some s
              \<longrightarrow> s_state s \<noteq> waiting_description"
    by (simp add: bot_in_def text_message_def session_at_def)
  have d: "user_states ?d (m_from_user_id (text_message ''lunch''))
             = Some (session_at waiting_description (Some 300) (Some ''12''))
           \<and> s_state (session_at waiting_description (Some 300) (Some ''12'')) = waiting_description
           \<and> db_manager ?d = Some ?m
           \<and> s_type (session_at waiting_description (Some 300) (Some ''12'')) = Some ''expense''
           \<and> s_amount (session_at waiting_description (Some 300) (Some ''12'')) = Some 300"
    by (simp add: bot_in_def text_message_def session_at_def)
  have t: "durable (snd (handle_message float_plain ?a (text_message ''300''))) = durable ?a"
    using only_terminal_step_writes [of ?a "text_message ''300''" "pressed ''type_expense''" float_plain]
      na by blast
  have w: "durable (snd (handle_message float_plain ?d (text_message ''lunch''))) =
             Some (if fst (add_transaction ?m (m_from_user_id (text_message ''lunch'')) ''expense'' 300
                             (case s_category (session_at waiting_description (Some 300) (Some ''12''))
                              of None \<Rightarrow> ''Other'' | Some c \<Rightarrow> c)
                             (m_text (text_message ''lunch''))) = Inr True
                   then (server ?m)\<lparr>transactions := transactions (server ?m)
                          @ [\<lparr>t_user_id = m_from_user_id (text_message ''lunch''), t_type = ''expense'',
                              t_amount = 300,
                              t_category = (case s_category (session_at waiting_description (Some 300) (Some ''12''))
                                            of None \<Rightarrow> ''Other'' | Some c \<Rightarrow> c),
                              t_description = m_text (text_message ''lunch''), t_date = server_now ?m\<rparr>]\<rparr>
                   else server ?m)"
    using only_terminal_step_writes [of ?d "text_message ''lunch''" "pressed ''type_expense''" float_plain]
      d by blast
  have u: "m_from_user_id (text_message ''lunch'') = 7"
    by (simp add: text_message_def)
  have "durable (snd (handle_message float_plain ?d (text_message ''lunch'')))
       = Some (store_with [spent 7 300 ''12'' (moment 2024 2 15 12 0 0)\<lparr>t_description := ''lunch''\<rparr>] [])"
    unfolding w u sample_add_transaction
    by (simp add: session_at_def text_message_def manager_def store_with_def spent_def)
  moreover have "durable ?a = Some (store_with [] [])" "durable (bot_in None) = Some (store_with [] [])"
    "durable ?k = Some (store_with [] [])"
    by (simp_all add: durable_def bot_in_def manager_def)
  ultimately show ?thesis
    using t kk only_terminal_step_writes [of "bot_in None" "text_message ''/add''" "pressed ''type_expense''" float_plain]
    by simp
qed

section \<open>The category that is written\<close>

lemma handle_callback_button:
  assumes "user_states b (cb_from_user_id call) = Some s"
    and "cb_data call = snd (category_button cat)"
  shows "handle_callback b call =
           (None,
            answer_callback_query
              (send_message
                 (b\<lparr>user_states := (user_states b)(cb_from_user_id call \<mapsto>
                      s\<lparr>s_category := Some (str_int (c_id cat)), s_state := waiting_description\<rparr>)\<rparr>)
                 (cb_chat_id call) EnterDescription)
              (cb_id call))"
proof -
  have "startswith (cb_data call) ''cat_''"
    and "item1 (split_on CHR ''_'' (cb_data call)) = Inr (str_int (c_id cat))"
    using category_button_data [of cat] assms(2) by simp_all
  then show ?thesis
    using assms(1) by (simp add: handle_callback_cat)
qed

text \<open>
  C10. A category button carries \<open>cat_\<close> followed by the decimal id of its category
  row; pressed by a user with a session, it stores exactly that id string as the
  session's category, whatever the row's name is. And when the text message handled in
  \<open>waiting_description\<close> changes the store, it appends one transaction row whose
  category is the session's category, or the string \<open>Other\<close> when the session has
  none.
\<close>

theorem persisted_category_is_callback_id:
  "(\<forall>s. user_states b (cb_from_user_id call) = Some s \<and> cb_data call = snd (category_button cat)
        \<longrightarrow> fst (handle_callback b call) = None
            \<and> user_states (snd (handle_callback b call)) (cb_from_user_id call)
                = Some (s\<lparr>s_category := Some (str_int (c_id cat)), s_state := waiting_description\<rparr>))
   \<and> (\<forall>s. user_states b (m_from_user_id msg) = Some s \<and> s_state s = waiting_description
            \<and> durable (snd (handle_message pyfloat b msg)) \<noteq> durable b
        \<longrightarrow> (\<exists>m r. db_manager b = Some m
               \<and> durable (snd (handle_message pyfloat b msg))
                   = Some ((server m)\<lparr>transactions := transactions (server m) @ [r]\<rparr>)
               \<and> t_category r = (case s_category s of None \<Rightarrow> ''Other'' | Some c \<Rightarrow> c)))"
proof -
  have a: "fst (handle_callback b call) = None
            \<and> user_states (snd (handle_callback b call)) (cb_from_user_id call)
                = Some (s\<lparr>s_category := Some (str_int (c_id cat)), s_state := waiting_description\<rparr>)"
    if "user_states b (cb_from_user_id call) = Some s" and "cb_data call = snd (category_button cat)" for s
    by (simp add: handle_callback_button [OF that] send_message_def answer_callback_query_def)
  have b: "\<exists>m r. db_manager b = Some m
               \<and> durable (snd (handle_message pyfloat b msg))
                   = Some ((server m)\<lparr>transactions := transactions (server m) @ [r]\<rparr>)
               \<and> t_category r = (case s_category s of None \<Rightarrow> ''Other'' | Some c \<Rightarrow> c)"
    if s: "user_states b (m_from_user_id msg) = Some s" and w: "s_state s = waiting_description"
      and ch: "durable (snd (handle_message pyfloat b msg)) \<noteq> durable b" for s
  proof -
    have nm: "\<not> (s_type s = None \<or> s_amount s = None \<or> db_manager b = None)"
    proof
      assume "s_type s = None \<or> s_amount s = None \<or> db_manager b = None"
      then have "db_manager (snd (handle_message pyfloat b msg)) = db_manager b"
        by (rule terminal_step_missing_field [OF s w])
      with ch show False by (simp add: durable_def)
    qed
    then obtain m ty a where f: "db_manager b = Some m" "s_type s = Some ty" "s_amount s = Some a"
      by auto
    let ?cat = "case s_category s of None \<Rightarrow> ''Other'' | Some c \<Rightarrow> c"
    let ?r = "\<lparr>t_user_id = m_from_user_id msg, t_type = ty, t_amount = a, t_category = ?cat,
              t_description = m_text msg, t_date = server_now m\<rparr>"
    have d: "durable (snd (handle_message pyfloat b msg)) =
               Some (if fst (add_transaction m (m_from_user_id msg) ty a ?cat (m_text msg)) = Inr True
                     then (server m)\<lparr>transactions := transactions (server m) @ [?r]\<rparr>
                     else server m)"
      by (rule durable_terminal_step [OF s w f])
    with ch f have "fst (add_transaction m (m_from_user_id msg) ty a ?cat (m_text msg)) = Inr True"
      by (auto simp: durable_def split: if_splits)
    with d have "durable (snd (handle_message pyfloat b msg))
                   = Some ((server m)\<lparr>transactions := transactions (server m) @ [?r]\<rparr>)"
      by simp
    moreover have "t_category ?r = ?cat" by simp
    ultimately show ?thesis using f(1) by blast
  qed
  from a b show ?thesis by blast
qed

theorem persisted_category_is_callback_id_witness:
  "c_name food = ''Food'' \<and> snd (category_button food) = ''cat_12''
   \<and> user_states (snd (handle_callback (bot_in (Some (session_at waiting_category (Some 300) None)))
                          (pressed ''cat_12''))) 7
       = Some (session_at waiting_description (Some 300) (Some ''12''))
   \<and> (\<exists>r. durable (snd (handle_message float_plain
                 (bot_in (Some (session_at waiting_description (Some 300) (Some ''12''))))
                 (text_message ''lunch'')))
            = Some (store_with [r] [])
          \<and> t_category r = ''12'')"
proof -
  let ?m = "manager (always Success) True (store_with [] [])"
  let ?c = "bot_in (Some (session_at waiting_category (Some 300) None))"
  let ?s = "session_at waiting_description (Some 300) (Some ''12'')"
  let ?d = "bot_in (Some ?s)"
  have i: "str_int (c_id food) = ''12''"
    by (simp add: food_def str_int_def digits.simps digit_char_def)
  then have bt: "snd (category_button food) = ''cat_12''"
    by (simp add: category_button_def)
  have c: "user_states ?c (cb_from_user_id (pressed ''cat_12'')) = Some (session_at waiting_category (Some 300) None)
           \<and> cb_data (pressed ''cat_12'') = snd (category_button food)"
    using bt by (simp add: bot_in_def pressed_def)
  have "user_states (snd (handle_callback ?c (pressed ''cat_12''))) (cb_from_user_id (pressed ''cat_12''))
          = Some ((session_at waiting_category (Some 300) None)\<lparr>s_category := Some (str_int (c_id food)),
                     s_state := waiting_description\<rparr>)"
    using persisted_category_is_callback_id [of ?c "pressed ''cat_12''" food] c by blast
  then have a: "user_states (snd (handle_callback ?c (pressed ''cat_12''))) 7 = Some ?s"
    by (simp add: i pressed_def session_at_def)
  have d: "user_states ?d (m_from_user_id (text_message ''lunch'')) = Some ?s"
    "s_state ?s = waiting_description" "db_manager ?d = Some ?m" "s_type ?s = Some ''expense''"
    "s_amount ?s = Some 300"
    by (simp_all add: bot_in_def text_message_def session_at_def)
  have u: "m_from_user_id (text_message ''lunch'') = 7"
    by (simp add: text_message_def)
  have ok: "(fst (add_transaction ?m 7 ''expense'' 300 cat descr) = Inr True) = True" for cat descr
    by (simp add: sample_add_transaction)
  have "durable (snd (handle_message float_plain ?d (text_message ''lunch''))) \<noteq> Some (server ?m)"
    unfolding durable_terminal_step [OF d] u ok by (simp add: manager_def store_with_def)
  then have "durable (snd (handle_message float_plain ?d (text_message ''lunch''))) \<noteq> durable ?d"
    by (simp add: durable_def d(3))
  then obtain m r where mr: "db_manager ?d = Some m"
      "durable (snd (handle_message float_plain ?d (text_message ''lunch'')))
         = Some ((server m)\<lparr>transactions := transactions (server m) @ [r]\<rparr>)"
      "t_category r = (case s_category ?s of None \<Rightarrow> ''Other'' | Some c \<Rightarrow> c)"
    using persisted_category_is_callback_id [of ?d _ _ "text_message ''lunch''" float_plain] d(1,2)
    by blast
  from mr(1) d(3) have "m = ?m" by simp
  with mr(2,3) have "durable (snd (handle_message float_plain ?d (text_message ''lunch'')))
         = Some (store_with [r] []) \<and> t_category r = ''12''"
    by (simp add: manager_def store_with_def session_at_def)
  with a bt show ?thesis
    by (auto simp: food_def)
qed

section \<open>One reconnect attempt for each operation\<close>

text \<open>
  C6. Each of \<open>execute_query\<close>, \<open>execute_insert\<close> and \<open>execute_update\<close> calls
  \<open>connect\<close> at most once, whatever the driver does (so also when the store is never
  reachable). When the connection is absent or the probe fails, the one \<open>connect\<close> ends
  the operation in one of two ways. If it returns \<open>False\<close> (the driver raised
  \<open>OperationalError\<close>), the operation returns at once, the query with the empty list and
  the insert and the update with \<open>False\<close>. If it raises (the driver raised anything
  else: \<open>connect\<close> catches only \<open>OperationalError\<close>, and the operations call it outside
  their \<open>try\<close>), the operation raises that exception to its caller and returns neither
  the empty list nor \<open>False\<close>. In both cases the manager is left as the failed \<open>connect\<close>
  left it, with one more call of \<open>connect\<close> counted, no statement sent and the store
  unchanged.
\<close>

theorem reconnect_at_most_once:
  "connect_calls (snd (execute_query m q)) \<le> connect_calls m + 1
   \<and> connect_calls (snd (execute_insert m ins)) \<le> connect_calls m + 1
   \<and> connect_calls (snd (execute_update m upd)) \<le> connect_calls m + 1
   \<and> ((\<not> connection m \<or> \<not> fst (check_connection m))
         \<and> fst (connect (snd (check_connection m))) = Inr False
       \<longrightarrow> execute_query m q = (Inr [], snd (connect (snd (check_connection m))))
           \<and> execute_insert m ins = (Inr False, snd (connect (snd (check_connection m))))
           \<and> execute_update m upd = (Inr False, snd (connect (snd (check_connection m))))
           \<and> connect_calls (snd (connect (snd (check_connection m)))) = connect_calls m + 1
           \<and> server (snd (connect (snd (check_connection m)))) = server m)
   \<and> ((\<not> connection m \<or> \<not> fst (check_connection m))
         \<and> fst (connect (snd (check_connection m))) = Inl e
       \<longrightarrow> execute_query m q = (Inl e, snd (connect (snd (check_connection m))))
           \<and> execute_insert m ins = (Inl e, snd (connect (snd (check_connection m))))
           \<and> execute_update m upd = (Inl e, snd (connect (snd (check_connection m))))
           \<and> connect_calls (snd (connect (snd (check_connection m)))) = connect_calls m + 1
           \<and> server (snd (connect (snd (check_connection m)))) = server m)"
proof -
  have a: "connect_calls (snd (execute_query m q)) \<le> connect_calls m + 1"
    using reconnect_if_lost_frame [of m] by (simp add: execute_query_calls)
  have b: "connect_calls (snd (execute_insert m ins)) \<le> connect_calls m + 1"
    using reconnect_if_lost_frame [of m] by (simp add: execute_insert_calls)
  have c: "connect_calls (snd (execute_update m upd)) \<le> connect_calls m + 1"
    using reconnect_if_lost_frame [of m] by (simp add: execute_update_calls)
  have d: "execute_query m q = (Inr [], snd (connect (snd (check_connection m))))
           \<and> execute_insert m ins = (Inr False, snd (connect (snd (check_connection m))))
           \<and> execute_update m upd = (Inr False, snd (connect (snd (check_connection m))))
           \<and> connect_calls (snd (connect (snd (check_connection m)))) = connect_calls m + 1
           \<and> server (snd (connect (snd (check_connection m)))) = server m"
    if lost: "\<not> connection m \<or> \<not> fst (check_connection m)"
      and failed: "fst (connect (snd (check_connection m))) = Inr False"
  proof -
    from lost have nc: "\<not> fst (check_connection m)"
      by (auto simp: check_connection_def)
    then have r: "reconnect_if_lost m = (Inr False, snd (connect (snd (check_connection m))))"
      using failed by (simp add: reconnect_if_lost_eq prod_eq_iff)
    show ?thesis
      by (simp add: execute_query_def execute_insert_def execute_update_def r
          connect_frame check_connection_frame)
  qed
  have f: "execute_query m q = (Inl e, snd (connect (snd (check_connection m))))
           \<and> execute_insert m ins = (Inl e, snd (connect (snd (check_connection m))))
           \<and> execute_update m upd = (Inl e, snd (connect (snd (check_connection m))))
           \<and> connect_calls (snd (connect (snd (check_connection m)))) = connect_calls m + 1
           \<and> server (snd (connect (snd (check_connection m)))) = server m"
    if lost: "\<not> connection m \<or> \<not> fst (check_connection m)"
      and raised: "fst (connect (snd (check_connection m))) = Inl e"
  proof -
    from lost have nc: "\<not> fst (check_connection m)"
      by (auto simp: check_connection_def)
    then have r: "reconnect_if_lost m = (Inl e, snd (connect (snd (check_connection m))))"
      using raised by (simp add: reconnect_if_lost_eq prod_eq_iff)
    show ?thesis
      by (simp add: execute_query_def execute_insert_def execute_update_def r
          connect_frame check_connection_frame)
  qed
  from a b c d f show ?thesis by blast
qed

theorem reconnect_at_most_once_witness:
  "\<not> connection (manager (always RaiseOperationalError) False (store_with [] []))
   \<and> execute_query (manager (always RaiseOperationalError) False (store_with [] [])) (sql_categories 7)
       = (Inr [], (manager (always RaiseOperationalError) False (store_with [] []))
                    \<lparr>clock := 1, connect_calls := 1\<rparr>)
   \<and> execute_insert (manager (always RaiseOperationalError) True (store_with [] []))
         (sql_insert_user 8 ''bob'' ''RUB'')
       = (Inr False, (manager (always RaiseOperationalError) True (store_with [] []))
                       \<lparr>clock := 2, connect_calls := 1\<rparr>)
   \<and> connect_calls (snd (execute_update (manager (always Success) True (store_with [] []))
         (sql_update_user ''ann'' ''EUR'' 7))) \<le> 1
   \<and> \<not> connection (manager (always RaiseOther) False (store_with [] []))
   \<and> execute_query (manager (always RaiseOther) False (store_with [] [])) (sql_categories 7)
       = (Inl DriverError, (manager (always RaiseOther) False (store_with [] []))
                             \<lparr>clock := 1, connect_calls := 1\<rparr>)
   \<and> execute_insert (manager (always RaiseOther) False (store_with [] []))
         (sql_insert_user 8 ''bob'' ''RUB'')
       = (Inl DriverError, (manager (always RaiseOther) False (store_with [] []))
                             \<lparr>clock := 1, connect_calls := 1\<rparr>)
   \<and> execute_update (manager (always RaiseOther) False (store_with [] []))
         (sql_update_user ''ann'' ''EUR'' 7)
       = (Inl DriverError, (manager (always RaiseOther) False (store_with [] []))
                             \<lparr>clock := 1, connect_calls := 1\<rparr>)"
proof -
  let ?down = "manager (always RaiseOperationalError) False (store_with [] [])"
  let ?dead = "manager (always RaiseOperationalError) True (store_with [] [])"
  let ?up = "manager (always Success) True (store_with [] [])"
  let ?gone = "manager (always RaiseOther) False (store_with [] [])"
  have l1: "(\<not> connection ?down \<or> \<not> fst (check_connection ?down))
            \<and> fst (connect (snd (check_connection ?down))) = Inr False"
    by (simp add: manager_def always_def check_connection_def connect_def)
  have l2: "(\<not> connection ?dead \<or> \<not> fst (check_connection ?dead))
            \<and> fst (connect (snd (check_connection ?dead))) = Inr False"
    by (simp add: manager_def always_def check_connection_def connect_def)
  have l3: "(\<not> connection ?gone \<or> \<not> fst (check_connection ?gone))
            \<and> fst (connect (snd (check_connection ?gone))) = Inl DriverError"
    by (simp add: manager_def always_def check_connection_def connect_def)
  have s1: "snd (connect (snd (check_connection ?down))) = ?down\<lparr>clock := 1, connect_calls := 1\<rparr>"
    by (simp add: manager_def always_def check_connection_def connect_def)
  have s2: "snd (connect (snd (check_connection ?dead))) = ?dead\<lparr>clock := 2, connect_calls := 1\<rparr>"
    by (simp add: manager_def always_def check_connection_def connect_def)
  have s3: "snd (connect (snd (check_connection ?gone))) = ?gone\<lparr>clock := 1, connect_calls := 1\<rparr>"
    by (simp add: manager_def always_def check_connection_def connect_def)
  have z: "connect_calls ?up = 0" "\<not> connection ?down" "\<not> connection ?gone"
    by (simp_all add: manager_def)
  have g: "execute_query ?gone (sql_categories 7) = (Inl DriverError, ?gone\<lparr>clock := 1, connect_calls := 1\<rparr>)
      \<and> execute_insert ?gone (sql_insert_user 8 ''bob'' ''RUB'')
          = (Inl DriverError, ?gone\<lparr>clock := 1, connect_calls := 1\<rparr>)
      \<and> execute_update ?gone (sql_update_user ''ann'' ''EUR'' 7)
          = (Inl DriverError, ?gone\<lparr>clock := 1, connect_calls := 1\<rparr>)"
    using reconnect_at_most_once [of ?gone "sql_categories 7" "sql_insert_user 8 ''bob'' ''RUB''"
        "sql_update_user ''ann'' ''EUR'' 7" DriverError] l3
    by (simp add: s3)
  have h: "\<not> connection ?down
      \<and> execute_query ?down (sql_categories 7) = (Inr [], ?down\<lparr>clock := 1, connect_calls := 1\<rparr>)
      \<and> execute_insert ?dead (sql_insert_user 8 ''bob'' ''RUB'')
          = (Inr False, ?dead\<lparr>clock := 2, connect_calls := 1\<rparr>)
      \<and> connect_calls (snd (execute_update ?up (sql_update_user ''ann'' ''EUR'' 7))) \<le> 1"
    using reconnect_at_most_once [of ?down "sql_categories 7" "sql_insert_user 8 ''bob'' ''RUB''"
        "sql_update_user ''ann'' ''EUR'' 7" DriverError]
      reconnect_at_most_once [of ?dead "sql_categories 7" "sql_insert_user 8 ''bob'' ''RUB''"
        "sql_update_user ''ann'' ''EUR'' 7" DriverError]
      reconnect_at_most_once [of ?up "sql_categories 7" "sql_insert_user 8 ''bob'' ''RUB''"
        "sql_update_user ''ann'' ''EUR'' 7" DriverError]
      l1 l2 z
    by (simp add: s1 s2)
  from g h z show ?thesis by blast
qed

section \<open>Operations on a reachable store\<close>

lemma reconnect_if_lost_reachable:
  assumes "reachable m"
  shows "fst (reconnect_if_lost m) = Inr True"
  using assms
  by (simp add: reachable_def reconnect_if_lost_def check_connection_def connect_def)

lemma execute_update_reachable:
  assumes "reachable m"
  shows "fst (execute_update m stmt) = Inr (case stmt (server m) of None \<Rightarrow> False | Some (k, db) \<Rightarrow> 0 < k)
       \<and> server (snd (execute_update m stmt)) = (case stmt (server m) of None \<Rightarrow> server m | Some (k, db) \<Rightarrow> db)
       \<and> reachable (snd (execute_update m stmt))"
proof -
  obtain m1 where r: "reconnect_if_lost m = (Inr True, m1)"
    using reconnect_if_lost_reachable [OF assms] by (cases "reconnect_if_lost m") simp
  then have "server m1 = server m" "driver m1 = driver m"
    using reconnect_if_lost_frame [of m] by simp_all
  with assms r show ?thesis
    by (simp add: execute_update_def reachable_def Let_def split: option.splits)
qed

lemma execute_insert_reachable:
  assumes "reachable m"
  shows "fst (execute_insert m stmt) = Inr (stmt (server m) \<noteq> None)
       \<and> server (snd (execute_insert m stmt)) = (case stmt (server m) of None \<Rightarrow> server m | Some db \<Rightarrow> db)
       \<and> reachable (snd (execute_insert m stmt))"
proof -
  obtain m1 where r: "reconnect_if_lost m = (Inr True, m1)"
    using reconnect_if_lost_reachable [OF assms] by (cases "reconnect_if_lost m") simp
  then have "server m1 = server m" "driver m1 = driver m"
    using reconnect_if_lost_frame [of m] by simp_all
  with assms r show ?thesis
    by (simp add: execute_insert_def reachable_def Let_def split: option.splits)
qed

lemma execute_query_reachable:
  assumes "reachable m"
  shows "fst (execute_query m q) = Inr (q (server m))
       \<and> server (snd (execute_query m q)) = server m
       \<and> reachable (snd (execute_query m q))"
proof -
  obtain m1 where r: "reconnect_if_lost m = (Inr True, m1)"
    using reconnect_if_lost_reachable [OF assms] by (cases "reconnect_if_lost m") simp
  then have "server m1 = server m" "driver m1 = driver m"
    using reconnect_if_lost_frame [of m] by simp_all
  with assms r show ?thesis
    by (simp add: execute_query_def reachable_def Let_def)
qed

lemma map_no_match: "k \<notin> set (map u_user_id us) \<Longrightarrow>
    map (\<lambda>u. if u_user_id u = k then f u else u) us = us"
  by (induction us) auto

lemma filter_no_match: "k \<notin> set (map u_user_id us) \<Longrightarrow> filter (\<lambda>u. u_user_id u = k) us = []"
  by (induction us) auto

lemma add_user_reachable:
  assumes "reachable m" and "in_bigint uid"
  shows "fst (add_user m uid name currency) = Inr True
       \<and> users (server (snd (add_user m uid name currency))) =
           (if uid \<in> set (map u_user_id (users (server m)))
            then map (\<lambda>u. if u_user_id u = uid then u\<lparr>u_name := name, u_currency := currency\<rparr> else u)
                   (users (server m))
            else users (server m) @ [\<lparr>u_user_id = uid, u_name = name, u_currency = currency\<rparr>])
       \<and> reachable (snd (add_user m uid name currency))"
proof (cases "uid \<in> set (map u_user_id (users (server m)))")
  case True
  then have "filter (\<lambda>u. u_user_id u = uid) (users (server m)) \<noteq> []"
    by (auto simp: filter_empty_conv)
  then have pos: "0 < length (filter (\<lambda>u. u_user_id u = uid) (users (server m)))"
    by simp
  obtain r m1 where e: "execute_update m (sql_update_user name currency uid) = (r, m1)"
    by (cases "execute_update m (sql_update_user name currency uid)")
  with execute_update_reachable [OF assms(1), of "sql_update_user name currency uid"] pos assms(2)
  have "r = Inr True" and "users (server m1) = map (\<lambda>u. if u_user_id u = uid then u\<lparr>u_name := name, u_currency := currency\<rparr> else u)
                   (users (server m))" and "reachable m1"
    by (simp_all add: sql_update_user_def)
  with True e show ?thesis
    by (simp add: add_user_def)
next
  case False
  then have none: "length (filter (\<lambda>u. u_user_id u = uid) (users (server m))) = 0"
    by (simp add: filter_no_match)
  obtain r m1 where e: "execute_update m (sql_update_user name currency uid) = (r, m1)"
    by (cases "execute_update m (sql_update_user name currency uid)")
  with execute_update_reachable [OF assms(1), of "sql_update_user name currency uid"] none False
    assms(2)
  have r: "r = Inr False" and u: "users (server m1) = users (server m)" and re: "reachable m1"
    by (simp_all add: sql_update_user_def map_no_match)
  from u False assms(2) have "sql_insert_user uid name currency (server m1)
      = Some ((server m1)\<lparr>users := users (server m) @ [\<lparr>u_user_id = uid, u_name = name, u_currency = currency\<rparr>]\<rparr>)"
    by (simp add: sql_insert_user_def)
  with execute_insert_reachable [OF re, of "sql_insert_user uid name currency"] False e r
  show ?thesis
    by (simp add: add_user_def)
qed

section \<open>The user upsert\<close>

lemma update_ids:
  "map u_user_id (map (\<lambda>u. if u_user_id u = k then u\<lparr>u_name := n, u_currency := c\<rparr> else u) us)
     = map u_user_id us"
  by (induction us) auto

lemma filter_updated:
  assumes "distinct (map u_user_id us)" and "k \<in> set (map u_user_id us)"
  shows "filter (\<lambda>u. u_user_id u = k)
           (map (\<lambda>u. if u_user_id u = k then u\<lparr>u_name := n, u_currency := c\<rparr> else u) us)
         = [\<lparr>u_user_id = k, u_name = n, u_currency = c\<rparr>]"
  using assms
proof (induction us)
  case Nil
  then show ?case by simp
next
  case (Cons x xs)
  show ?case
  proof (cases "u_user_id x = k")
    case True
    with Cons.prems have "k \<notin> set (map u_user_id xs)" by auto
    then have "filter (\<lambda>u. u_user_id u = k)
           (map (\<lambda>u. if u_user_id u = k then u\<lparr>u_name := n, u_currency := c\<rparr> else u) xs) = []"
      by (simp add: map_no_match filter_no_match)
    with True show ?thesis by simp
  next
    case False
    with Cons show ?thesis by auto
  qed
qed

text \<open>
  What an \<open>execute_update\<close> that returned \<open>True\<close> did to the store, and what one that
  returned \<open>False\<close> can have done, whatever the driver does.
\<close>

lemma execute_update_success:
  assumes "fst (execute_update m stmt) = Inr True"
  shows "\<exists>k. 0 < k \<and> stmt (server m) = Some (k, server (snd (execute_update m stmt)))"
  using assms reconnect_if_lost_frame [of m]
  by (cases "reconnect_if_lost m")
     (auto simp: execute_update_def Let_def
        split: sum.splits bool.splits outcome.splits option.splits prod.splits)

lemma execute_update_failure:
  assumes "fst (execute_update m stmt) = Inr False"
  shows "server (snd (execute_update m stmt)) = server m
       \<or> stmt (server m) = Some (0, server (snd (execute_update m stmt)))"
  using assms reconnect_if_lost_frame [of m]
  by (cases "reconnect_if_lost m")
     (auto simp: execute_update_def Let_def
        split: sum.splits bool.splits outcome.splits option.splits prod.splits)

lemma update_user_matched:
  assumes "0 < k" and "sql_update_user name currency uid db = Some (k, db1)"
  shows "in_bigint uid \<and> uid \<in> set (map u_user_id (users db))
       \<and> users db1 = map (\<lambda>u. if u_user_id u = uid
                                 then u\<lparr>u_name := name, u_currency := currency\<rparr> else u)
                        (users db)"
proof -
  from assms(2) have b: "in_bigint uid"
    and k: "k = length (filter (\<lambda>u. u_user_id u = uid) (users db))"
    and d: "db1 = db\<lparr>users := map (\<lambda>u. if u_user_id u = uid
                                 then u\<lparr>u_name := name, u_currency := currency\<rparr> else u)
                        (users db)\<rparr>"
    by (simp_all add: sql_update_user_def split: if_splits)
  from k assms(1) have "uid \<in> set (map u_user_id (users db))"
    using filter_no_match [of uid "users db"] by auto
  with b d show ?thesis by simp
qed

lemma update_user_unmatched:
  assumes "sql_update_user name currency uid db = Some (0, db1)"
  shows "uid \<notin> set (map u_user_id (users db)) \<and> users db1 = users db"
proof -
  from assms have k: "length (filter (\<lambda>u. u_user_id u = uid) (users db)) = 0"
    and d: "db1 = db\<lparr>users := map (\<lambda>u. if u_user_id u = uid
                                 then u\<lparr>u_name := name, u_currency := currency\<rparr> else u)
                        (users db)\<rparr>"
    by (simp_all add: sql_update_user_def split: if_splits)
  from k have n: "uid \<notin> set (map u_user_id (users db))"
    by (auto simp: filter_empty_conv)
  with d show ?thesis by (simp add: map_no_match)
qed

text \<open>
  An \<open>add_user\<close> that returned \<open>True\<close>, whatever the driver did during the call: the
  key is a \<open>BIGINT\<close>, and either the \<open>UPDATE\<close> matched the row of the key and rewrote
  it, or it did not run or matched nothing and the \<open>INSERT\<close> added the row.
\<close>

lemma add_user_success:
  assumes "fst (add_user m uid name currency) = Inr True"
  shows "in_bigint uid
       \<and> (uid \<in> set (map u_user_id (users (server m)))
            \<and> users (server (snd (add_user m uid name currency))) =
                map (\<lambda>u. if u_user_id u = uid
                          then u\<lparr>u_name := name, u_currency := currency\<rparr> else u)
                    (users (server m))
          \<or> uid \<notin> set (map u_user_id (users (server m)))
            \<and> users (server (snd (add_user m uid name currency))) =
                users (server m) @ [\<lparr>u_user_id = uid, u_name = name, u_currency = currency\<rparr>])"
proof -
  obtain r m1 where e: "execute_update m (sql_update_user name currency uid) = (r, m1)"
    by (cases "execute_update m (sql_update_user name currency uid)")
  show ?thesis
  proof (cases r)
    case (Inl x)
    with e assms show ?thesis by (simp add: add_user_def)
  next
    case (Inr ok)
    show ?thesis
    proof (cases ok)
      case True
      with Inr e have a: "add_user m uid name currency = (Inr True, m1)"
        by (simp add: add_user_def)
      from Inr True e obtain k where "0 < k"
        and "sql_update_user name currency uid (server m) = Some (k, server m1)"
        using execute_update_success [of m "sql_update_user name currency uid"] by auto
      then show ?thesis
        using update_user_matched [of k name currency uid "server m" "server m1"] a by simp
    next
      case False
      with Inr e have a: "add_user m uid name currency
                            = execute_insert m1 (sql_insert_user uid name currency)"
        by (simp add: add_user_def)
      from Inr False e have "server m1 = server m
          \<or> sql_update_user name currency uid (server m) = Some (0, server m1)"
        using execute_update_failure [of m "sql_update_user name currency uid"] by auto
      then have u: "users (server m1) = users (server m)"
        using update_user_unmatched [of name currency uid "server m" "server m1"] by auto
      from a assms have "sql_insert_user uid name currency (server m1)
          = Some (server (snd (add_user m uid name currency)))"
        using execute_insert_success [of m1 "sql_insert_user uid name currency"] by simp
      then have i: "in_bigint uid \<and> uid \<notin> set (map u_user_id (users (server m1)))"
        and s: "server (snd (add_user m uid name currency)) =
              (server m1)\<lparr>users := users (server m1)
                 @ [\<lparr>u_user_id = uid, u_name = name, u_currency = currency\<rparr>]\<rparr>"
        by (auto simp: sql_insert_user_def split: if_splits)
      from s have "users (server (snd (add_user m uid name currency))) =
              users (server m1) @ [\<lparr>u_user_id = uid, u_name = name, u_currency = currency\<rparr>]"
        by simp
      with i u show ?thesis by simp
    qed
  qed
qed

lemma add_user_success_row:
  assumes "distinct (map u_user_id (users (server m)))"
    and "fst (add_user m uid name currency) = Inr True"
  shows "distinct (map u_user_id (users (server (snd (add_user m uid name currency)))))
       \<and> filter (\<lambda>u. u_user_id u = uid) (users (server (snd (add_user m uid name currency))))
           = [\<lparr>u_user_id = uid, u_name = name, u_currency = currency\<rparr>]"
proof (cases "uid \<in> set (map u_user_id (users (server m)))")
  case True
  with add_user_success [OF assms(2)]
  have u: "users (server (snd (add_user m uid name currency))) =
             map (\<lambda>u. if u_user_id u = uid
                       then u\<lparr>u_name := name, u_currency := currency\<rparr> else u)
                 (users (server m))"
    by blast
  show ?thesis
    using assms(1) filter_updated [OF assms(1) True, where n = name and c = currency]
    by (simp add: u update_ids del: map_map)
next
  case False
  with add_user_success [OF assms(2)]
  have u: "users (server (snd (add_user m uid name currency))) =
             users (server m) @ [\<lparr>u_user_id = uid, u_name = name, u_currency = currency\<rparr>]"
    by blast
  show ?thesis
    using assms(1) False by (simp add: u filter_no_match)
qed

text \<open>
  C5. The \<open>users\<close> table has no two rows with the same \<open>user_id\<close> (the primary key).
  Whatever the driver does: when two calls of \<open>add_user\<close> in sequence for the same
  \<open>user_id\<close> both return \<open>True\<close>, the \<open>user_id\<close> fits the \<open>BIGINT\<close> column and the table
  then has exactly one row for that \<open>user_id\<close>, holding the name and the currency of the
  second call. And on a reachable store both calls do return \<open>True\<close> for every \<open>user_id\<close>
  that fits the \<open>BIGINT\<close> column. (For a \<open>user_id\<close> outside \<open>-2^63 .. 2^63 - 1\<close> the
  store rejects both statements and \<open>add_user\<close> returns \<open>False\<close>.)
\<close>

theorem user_upsert_twice:
  assumes "distinct (map u_user_id (users (server m)))"
  shows "(fst (add_user m uid n1 c1) = Inr True
          \<and> fst (add_user (snd (add_user m uid n1 c1)) uid n2 c2) = Inr True
          \<longrightarrow> in_bigint uid
              \<and> filter (\<lambda>u. u_user_id u = uid)
                  (users (server (snd (add_user (snd (add_user m uid n1 c1)) uid n2 c2))))
                = [\<lparr>u_user_id = uid, u_name = n2, u_currency = c2\<rparr>])
       \<and> (reachable m \<and> in_bigint uid
          \<longrightarrow> fst (add_user m uid n1 c1) = Inr True
              \<and> fst (add_user (snd (add_user m uid n1 c1)) uid n2 c2) = Inr True)"
proof -
  let ?m1 = "snd (add_user m uid n1 c1)"
  have a: "in_bigint uid
          \<and> filter (\<lambda>u. u_user_id u = uid) (users (server (snd (add_user ?m1 uid n2 c2))))
            = [\<lparr>u_user_id = uid, u_name = n2, u_currency = c2\<rparr>]"
    if t1: "fst (add_user m uid n1 c1) = Inr True"
      and t2: "fst (add_user ?m1 uid n2 c2) = Inr True"
  proof -
    have k1: "distinct (map u_user_id (users (server ?m1)))"
      using add_user_success_row [OF assms t1] by simp
    show ?thesis
      using add_user_success [OF t1] add_user_success_row [OF k1 t2] by simp
  qed
  have b: "fst (add_user m uid n1 c1) = Inr True \<and> fst (add_user ?m1 uid n2 c2) = Inr True"
    if r: "reachable m" and i: "in_bigint uid"
  proof -
    have r1: "reachable ?m1" and t1: "fst (add_user m uid n1 c1) = Inr True"
      using add_user_reachable [OF r i, of n1 c1] by simp_all
    with add_user_reachable [OF r1 i, of n2 c2] show ?thesis by simp
  qed
  from a b show ?thesis by blast
qed

theorem user_upsert_twice_witness:
  "fst (add_user (manager (always Success) False (store_with [] [])) 8 ''bob'' ''RUB'') = Inr True
   \<and> fst (add_user (snd (add_user (manager (always Success) False (store_with [] [])) 8 ''bob'' ''RUB''))
            8 ''robert'' ''EUR'') = Inr True
   \<and> users (server (snd (add_user
        (snd (add_user (manager (always Success) False (store_with [] [])) 8 ''bob'' ''RUB''))
        8 ''robert'' ''EUR'')))
       = [\<lparr>u_user_id = 7, u_name = ''ann'', u_currency = ''RUB''\<rparr>,
          \<lparr>u_user_id = 8, u_name = ''robert'', u_currency = ''EUR''\<rparr>]
   \<and> filter (\<lambda>u. u_user_id u = 8)
        (users (server (snd (add_user
           (snd (add_user (manager (always Success) False (store_with [] [])) 8 ''bob'' ''RUB''))
           8 ''robert'' ''EUR''))))
       = [\<lparr>u_user_id = 8, u_name = ''robert'', u_currency = ''EUR''\<rparr>]
   \<and> \<not> in_bigint (2 ^ 63)
   \<and> fst (add_user (manager (always Success) False (store_with [] [])) (2 ^ 63) ''bob'' ''RUB'')
       = Inr False"
proof -
  let ?m = "manager (always Success) False (store_with [] [])"
  have r: "reachable ?m"
    by (simp add: reachable_def manager_def always_def)
  have d: "distinct (map u_user_id (users (server ?m)))"
    by (simp add: manager_def store_with_def)
  have i: "in_bigint 8"
    by (simp add: in_bigint_def)
  have o: "\<not> in_bigint (2 ^ 63) \<and> fst (add_user ?m (2 ^ 63) ''bob'' ''RUB'') = Inr False"
    by (simp add: in_bigint_def add_user_def execute_update_def execute_insert_def
        reconnect_if_lost_def check_connection_def connect_def manager_def always_def
        sql_update_user_def sql_insert_user_def Let_def)
  have u1: "users (server (snd (add_user ?m 8 ''bob'' ''RUB'')))
       = [\<lparr>u_user_id = 7, u_name = ''ann'', u_currency = ''RUB''\<rparr>,
          \<lparr>u_user_id = 8, u_name = ''bob'', u_currency = ''RUB''\<rparr>]"
    and r1: "reachable (snd (add_user ?m 8 ''bob'' ''RUB''))"
    using add_user_reachable [OF r i, of "''bob''" "''RUB''"]
    by (simp_all add: manager_def store_with_def)
  have "users (server (snd (add_user (snd (add_user ?m 8 ''bob'' ''RUB'')) 8 ''robert'' ''EUR'')))
       = [\<lparr>u_user_id = 7, u_name = ''ann'', u_currency = ''RUB''\<rparr>,
          \<lparr>u_user_id = 8, u_name = ''robert'', u_currency = ''EUR''\<rparr>]"
    using add_user_reachable [OF r1 i, of "''robert''" "''EUR''"]
    by (simp add: u1)
  then show ?thesis
    using user_upsert_twice [OF d, of 8 "''bob''" "''RUB''" "''robert''" "''EUR''"] r i o
    by simp
qed

section \<open>The monthly summary\<close>

lemma summary_row_apply:
  "summary_row F s (ty, tot, cnt) =
     (if ty = ''income''
        then s\<lparr>income := PyFloat (float_of_decimal F tot), income_count := cnt\<rparr>
      else if ty = ''expense''
        then s\<lparr>expense := PyFloat (float_of_decimal F tot), expense_count := cnt\<rparr>
      else s)"
  by (simp add: summary_row_def)

lemma foldl_summary_row:
  "foldl (summary_row F) s (map (\<lambda>ty. (ty, f ty, c ty)) tys) =
     s\<lparr>income := (if ''income'' \<in> set tys then PyFloat (float_of_decimal F (f ''income''))
                   else income s),
       income_count := (if ''income'' \<in> set tys then c ''income'' else income_count s),
       expense := (if ''expense'' \<in> set tys then PyFloat (float_of_decimal F (f ''expense''))
                   else expense s),
       expense_count := (if ''expense'' \<in> set tys then c ''expense'' else expense_count s)\<rparr>"
proof (induction tys arbitrary: s)
  case Nil
  then show ?case by simp
next
  case (Cons x xs)
  show ?case
    by (simp add: Cons.IH summary_row_apply)
qed

lemma total_of_absent: "ty \<notin> set (map t_type rows) \<Longrightarrow> total_of ty rows = 0"
  by (induction rows) (auto simp: total_of_def)

lemma count_absent: "ty \<notin> set (map t_type rows) \<Longrightarrow> filter (\<lambda>t. t_type t = ty) rows = []"
  by (induction rows) auto

text \<open>
  What the loop leaves in the summary: for a type that occurs among the rows, the float
  of the exact total of its rows; for a type that does not occur, the initial \<open>0\<close>.
\<close>

lemma summary_of_groups:
  "foldl (summary_row F) empty_summary (group_by_type rows) =
     \<lparr>income = (if ''income'' \<in> set (map t_type rows)
                then PyFloat (float_of_decimal F (total_of ''income'' rows)) else PyInt 0),
      expense = (if ''expense'' \<in> set (map t_type rows)
                 then PyFloat (float_of_decimal F (total_of ''expense'' rows)) else PyInt 0),
      income_count = int (length (filter (\<lambda>t. t_type t = ''income'') rows)),
      expense_count = int (length (filter (\<lambda>t. t_type t = ''expense'') rows)),
      balance = PyInt 0\<rparr>"
  unfolding group_by_type_def foldl_summary_row
  using count_absent [of "''income''" rows] count_absent [of "''expense''" rows]
  by (simp add: empty_summary_def total_of_def)

lemma days_in_month_pos: "1 \<le> days_in_month y mo"
  by (simp add: days_in_month_def mdays_def)

lemma get_monthly_summary_reachable:
  assumes "reachable m" and "1 \<le> y" and "y \<le> 9999" and "1 \<le> mo" and "mo \<le> 12"
  shows "fst (get_monthly_summary F m uid y mo) =
           Inr \<lparr>income = (if ''income'' \<in> set (map t_type (month_rows (server m) uid y mo))
                          then PyFloat (float_of_decimal F
                                 (total_of ''income'' (month_rows (server m) uid y mo)))
                          else PyInt 0),
                expense = (if ''expense'' \<in> set (map t_type (month_rows (server m) uid y mo))
                           then PyFloat (float_of_decimal F
                                  (total_of ''expense'' (month_rows (server m) uid y mo)))
                           else PyInt 0),
                income_count = int (length (filter (\<lambda>t. t_type t = ''income'')
                                               (month_rows (server m) uid y mo))),
                expense_count = int (length (filter (\<lambda>t. t_type t = ''expense'')
                                               (month_rows (server m) uid y mo))),
                balance =
                  py_sub F
                    (if ''income'' \<in> set (map t_type (month_rows (server m) uid y mo))
                     then PyFloat (float_of_decimal F
                            (total_of ''income'' (month_rows (server m) uid y mo)))
                     else PyInt 0)
                    (if ''expense'' \<in> set (map t_type (month_rows (server m) uid y mo))
                     then PyFloat (float_of_decimal F
                            (total_of ''expense'' (month_rows (server m) uid y mo)))
                     else PyInt 0)\<rparr>"
proof -
  have a: "mk_datetime y mo 1 0 0 0 = Inr (moment y mo 1 0 0 0)"
    using assms days_in_month_pos [of y mo]
    by (simp add: mk_datetime_def valid_date_def valid_time_def moment_def)
  have b: "monthrange_ndays y mo = Inr (days_in_month y mo)"
    using assms by (simp add: monthrange_ndays_def)
  have c: "mk_datetime y mo (days_in_month y mo) 23 59 59
             = Inr (moment y mo (days_in_month y mo) 23 59 59)"
    using assms days_in_month_pos [of y mo]
    by (simp add: mk_datetime_def valid_date_def valid_time_def moment_def)
  let ?q = "sql_totals_by_type uid (moment y mo 1 0 0 0) (moment y mo (days_in_month y mo) 23 59 59)"
  obtain r m1 where e: "execute_query m ?q = (r, m1)"
    by (cases "execute_query m ?q")
  with execute_query_reachable [OF assms(1), of ?q]
  have r: "r = Inr (group_by_type (month_rows (server m) uid y mo))"
    by (simp add: sql_totals_by_type_def month_rows_def moment_def)
  show ?thesis
    by (simp add: get_monthly_summary_def a b c e r summary_of_groups Let_def)
qed

section \<open>Properties of the calendar\<close>

lemma div_step:
  assumes "0 < (k::int)"
  shows "y div k - (y - 1) div k = (if y mod k = 0 then 1 else 0)"
proof -
  have k0: "k \<noteq> 0" using assms by simp
  have d: "y div k * k + y mod k = y" by (rule div_mult_mod_eq)
  show ?thesis
  proof (cases "y mod k = 0")
    case True
    with d have "y - 1 = (k - 1) + (y div k - 1) * k"
      by (simp add: left_diff_distrib)
    then have "(y - 1) div k = (k - 1 + (y div k - 1) * k) div k"
      by (rule arg_cong)
    also have "\<dots> = (y div k - 1) + (k - 1) div k"
      by (rule div_mult_self1 [OF k0])
    finally have "(y - 1) div k = (y div k - 1) + (k - 1) div k" .
    moreover have "(k - 1) div k = 0"
      using assms by (intro div_pos_pos_trivial) simp_all
    ultimately show ?thesis using True by simp
  next
    case False
    have "0 \<le> y mod k" "y mod k < k"
      using assms by simp_all
    with False have r: "0 \<le> y mod k - 1" "y mod k - 1 < k" by simp_all
    from d have "y - 1 = (y mod k - 1) + (y div k) * k" by simp
    then have "(y - 1) div k = (y mod k - 1 + (y div k) * k) div k"
      by (rule arg_cong)
    also have "\<dots> = y div k + (y mod k - 1) div k"
      by (rule div_mult_self1 [OF k0])
    finally have "(y - 1) div k = y div k + (y mod k - 1) div k" .
    moreover have "(y mod k - 1) div k = 0"
      using r by (intro div_pos_pos_trivial)
    ultimately show ?thesis using False by simp
  qed
qed

lemma mod_chain:
  fixes y :: int
  shows "y mod 400 = 0 \<Longrightarrow> y mod 100 = 0" and "y mod 100 = 0 \<Longrightarrow> y mod 4 = 0"
proof -
  have a: "(100::int) dvd 400" and b: "(4::int) dvd 100" by simp_all
  show "y mod 400 = 0 \<Longrightarrow> y mod 100 = 0"
    using dvd_trans [OF a, of y] by (simp add: mod_eq_0_iff_dvd)
  show "y mod 100 = 0 \<Longrightarrow> y mod 4 = 0"
    using dvd_trans [OF b, of y] by (simp add: mod_eq_0_iff_dvd)
qed

lemma leap_count:
  assumes "C \<longrightarrow> B" and "B \<longrightarrow> A"
  shows "(if A then 1 else 0) - (if B then 1 else 0) + (if C then 1 else 0)
           = (if A \<and> (\<not> B \<or> C) then 1 else (0::int))"
  using assms by (cases A; cases B; cases C; simp)

lemma year_step:
  fixes y :: int
  assumes "a4 = p4 + i4" and "a100 = p100 + i100" and "a400 = p400 + i400"
  shows "y * 365 + a4 - a100 + a400
           = (y - 1) * 365 + p4 - p100 + p400 + 365 + (i4 - i100 + i400)"
  using assms by (simp add: algebra_simps)

lemma days_before_year_Suc:
  "days_before_year (y + 1) = days_before_year y + 365 + (if isleap y then 1 else 0)"
proof -
  have a: "y div 4 = (y - 1) div 4 + (if y mod 4 = 0 then 1 else 0)"
    using div_step [of 4 y] by simp
  have b: "y div 100 = (y - 1) div 100 + (if y mod 100 = 0 then 1 else 0)"
    using div_step [of 100 y] by simp
  have c: "y div 400 = (y - 1) div 400 + (if y mod 400 = 0 then 1 else 0)"
    using div_step [of 400 y] by simp
  have "y + 1 - 1 = y" by simp
  then have "days_before_year (y + 1) = y * 365 + y div 4 - y div 100 + y div 400"
    by (simp only: days_before_year_def Let_def)
  also have "\<dots> = (y - 1) * 365 + (y - 1) div 4 - (y - 1) div 100 + (y - 1) div 400 + 365
      + ((if y mod 4 = 0 then 1 else 0) - (if y mod 100 = 0 then 1 else 0)
         + (if y mod 400 = 0 then 1 else 0))"
    by (rule year_step [OF a b c])
  also have "(if y mod 4 = 0 then 1 else 0) - (if y mod 100 = 0 then 1 else 0)
         + (if y mod 400 = 0 then 1 else 0) = (if isleap y then 1 else (0::int))"
    unfolding isleap_def using mod_chain [of y] by (intro leap_count) blast+
  finally have e: "days_before_year (y + 1) =
      (y - 1) * 365 + (y - 1) div 4 - (y - 1) div 100 + (y - 1) div 400 + 365
      + (if isleap y then 1 else 0)" .
  have f: "days_before_year y = (y - 1) * 365 + (y - 1) div 4 - (y - 1) div 100 + (y - 1) div 400"
    by (simp only: days_before_year_def Let_def)
  show ?thesis unfolding e f by (rule refl)
qed

lemma month_cases:
  assumes "1 \<le> mo" and "mo \<le> 12"
  shows "mo = 1 \<or> mo = 2 \<or> mo = 3 \<or> mo = 4 \<or> mo = 5 \<or> mo = 6 \<or> mo = 7 \<or> mo = 8
       \<or> mo = 9 \<or> mo = 10 \<or> mo = 11 \<or> mo = (12::int)"
  using assms by arith

lemma days_in_month_rule:
  "days_in_month y mo =
     (if mo = 2 then (if y mod 4 = 0 \<and> (y mod 100 \<noteq> 0 \<or> y mod 400 = 0) then 29 else 28)
      else if mo = 4 \<or> mo = 6 \<or> mo = 9 \<or> mo = 11 then 30 else 31)"
  by (cases "y mod 4 = 0"; cases "y mod 100 = 0"; cases "y mod 400 = 0";
      simp add: days_in_month_def mdays_def isleap_def)

lemma last_day_then_first:
  assumes "1 \<le> mo" and "mo \<le> 12"
  shows "ymd2ord y mo (days_in_month y mo) + 1 =
           (if mo = 12 then ymd2ord (y + 1) 1 1 else ymd2ord y (mo + 1) 1)"
  using month_cases [OF assms]
  by (elim disjE)
     (simp_all add: ymd2ord_def days_before_month_def days_in_month_def mdays_def
        days_before_year_Suc)

lemma window_year_month:
  assumes "dt_le \<lparr>year = y, month = mo, day = 1, hour = 0, minute = 0, second = 0, microsecond = 0\<rparr> d"
    and "dt_le d \<lparr>year = y, month = mo, day = n, hour = 23, minute = 59, second = 59, microsecond = 0\<rparr>"
  shows "year d = y \<and> month d = mo \<and> 1 \<le> day d \<and> day d \<le> n"
  using assms by (auto simp: dt_le_def dt_fields_def)

lemma month_rows_in_month:
  "t \<in> set (month_rows db uid y mo) \<Longrightarrow> year (t_date t) = y \<and> month (t_date t) = mo"
  using window_year_month [of y mo "t_date t" "days_in_month y mo"]
  by (simp add: month_rows_def)

lemma type_absent:
  "(\<forall>t\<in>set rows. t_type t \<noteq> ty) \<Longrightarrow> ty \<notin> set (map t_type rows)"
  by auto

lemma type_present:
  "(\<exists>t\<in>set rows. t_type t = ty) \<Longrightarrow> ty \<in> set (map t_type rows)"
  by auto

text \<open>
  C9. On a reachable store, for every user, every year in 1..9999 and month in 1..12, and
  whatever the float arithmetic \<open>F\<close> is, \<open>get_monthly_summary\<close> returns a summary over
  the user's rows dated from the first day of the month at 00:00:00 through its last day
  at 23:59:59: income and expense are the floats of the exact totals of the income and
  the expense rows among them, each is the initial \<open>0\<close> when no row of its type lies in
  the window, and the balance is Python's income minus expense of the two values
  returned. When no row lies in the window, income, expense and balance are all \<open>0\<close>.
  Every row of the window is dated in that year and month, the last day is the one of
  the calendar (28, 29 in a leap year, 30 or 31), and the day after it in the day count
  is the first day of the following month.
\<close>

theorem monthly_summary_window:
  assumes "reachable m" and "1 \<le> y" and "y \<le> 9999" and "1 \<le> mo" and "mo \<le> 12"
  shows "(\<exists>s. fst (get_monthly_summary F m uid y mo) = Inr s
            \<and> ((\<exists>t\<in>set (month_rows (server m) uid y mo). t_type t = ''income'') \<longrightarrow>
                 income s = PyFloat (float_of_decimal F
                              (total_of ''income'' (month_rows (server m) uid y mo))))
            \<and> ((\<exists>t\<in>set (month_rows (server m) uid y mo). t_type t = ''expense'') \<longrightarrow>
                 expense s = PyFloat (float_of_decimal F
                               (total_of ''expense'' (month_rows (server m) uid y mo))))
            \<and> balance s = py_sub F (income s) (expense s)
            \<and> ((\<forall>t\<in>set (month_rows (server m) uid y mo). t_type t \<noteq> ''income'')
                 \<longrightarrow> income s = PyInt 0)
            \<and> ((\<forall>t\<in>set (month_rows (server m) uid y mo). t_type t \<noteq> ''expense'')
                 \<longrightarrow> expense s = PyInt 0)
            \<and> (month_rows (server m) uid y mo = []
                 \<longrightarrow> income s = PyInt 0 \<and> expense s = PyInt 0 \<and> balance s = PyInt 0))
       \<and> (\<forall>t\<in>set (month_rows (server m) uid y mo). year (t_date t) = y \<and> month (t_date t) = mo)
       \<and> days_in_month y mo =
           (if mo = 2 then (if y mod 4 = 0 \<and> (y mod 100 \<noteq> 0 \<or> y mod 400 = 0) then 29 else 28)
            else if mo = 4 \<or> mo = 6 \<or> mo = 9 \<or> mo = 11 then 30 else 31)
       \<and> ymd2ord y mo (days_in_month y mo) + 1 =
           (if mo = 12 then ymd2ord (y + 1) 1 1 else ymd2ord y (mo + 1) 1)"
proof -
  let ?rows = "month_rows (server m) uid y mo"
  let ?i = "if ''income'' \<in> set (map t_type ?rows)
            then PyFloat (float_of_decimal F (total_of ''income'' ?rows)) else PyInt 0"
  let ?e = "if ''expense'' \<in> set (map t_type ?rows)
            then PyFloat (float_of_decimal F (total_of ''expense'' ?rows)) else PyInt 0"
  let ?s = "\<lparr>income = ?i, expense = ?e,
             income_count = int (length (filter (\<lambda>t. t_type t = ''income'') ?rows)),
             expense_count = int (length (filter (\<lambda>t. t_type t = ''expense'') ?rows)),
             balance = py_sub F ?i ?e\<rparr>"
  have r: "fst (get_monthly_summary F m uid y mo) = Inr ?s"
    by (rule get_monthly_summary_reachable [OF assms])
  have p1: "(\<exists>t\<in>set ?rows. t_type t = ''income'')
              \<longrightarrow> income ?s = PyFloat (float_of_decimal F (total_of ''income'' ?rows))"
    using type_present [of ?rows "''income''"] by simp
  have p2: "(\<exists>t\<in>set ?rows. t_type t = ''expense'')
              \<longrightarrow> expense ?s = PyFloat (float_of_decimal F (total_of ''expense'' ?rows))"
    using type_present [of ?rows "''expense''"] by simp
  have p3: "balance ?s = py_sub F (income ?s) (expense ?s)"
    by simp
  have p4: "(\<forall>t\<in>set ?rows. t_type t \<noteq> ''income'') \<longrightarrow> income ?s = PyInt 0"
    using type_absent [of ?rows "''income''"] by simp
  have p5: "(\<forall>t\<in>set ?rows. t_type t \<noteq> ''expense'') \<longrightarrow> expense ?s = PyInt 0"
    using type_absent [of ?rows "''expense''"] by simp
  have p6: "?rows = [] \<longrightarrow> income ?s = PyInt 0 \<and> expense ?s = PyInt 0 \<and> balance ?s = PyInt 0"
    by simp
  have a: "\<exists>s. fst (get_monthly_summary F m uid y mo) = Inr s
            \<and> ((\<exists>t\<in>set ?rows. t_type t = ''income'') \<longrightarrow>
                 income s = PyFloat (float_of_decimal F (total_of ''income'' ?rows)))
            \<and> ((\<exists>t\<in>set ?rows. t_type t = ''expense'') \<longrightarrow>
                 expense s = PyFloat (float_of_decimal F (total_of ''expense'' ?rows)))
            \<and> balance s = py_sub F (income s) (expense s)
            \<and> ((\<forall>t\<in>set ?rows. t_type t \<noteq> ''income'') \<longrightarrow> income s = PyInt 0)
            \<and> ((\<forall>t\<in>set ?rows. t_type t \<noteq> ''expense'') \<longrightarrow> expense s = PyInt 0)
            \<and> (?rows = [] \<longrightarrow> income s = PyInt 0 \<and> expense s = PyInt 0 \<and> balance s = PyInt 0)"
    using r p1 p2 p3 p4 p5 p6 by (intro exI [of _ ?s] conjI)
  have b: "\<forall>t\<in>set ?rows. year (t_date t) = y \<and> month (t_date t) = mo"
    using month_rows_in_month by blast
  from a b show ?thesis
    using days_in_month_rule [of y mo] last_day_then_first [OF assms(4,5), of y]
    by blast
qed

theorem monthly_summary_window_witness:
  "(\<exists>s. fst (get_monthly_summary symbolic
             (manager (always Success) True (store_with ledger [])) 7 2024 2) = Inr s
        \<and> income s = PyFloat (FloatOfDecimal 1000)
        \<and> expense s = PyFloat (FloatOfDecimal 300)
        \<and> balance s = PyFloat (FloatSub (FloatOfDecimal 1000) (FloatOfDecimal 300)))
   \<and> (\<exists>s. fst (get_monthly_summary symbolic
             (manager (always Success) True (store_with ledger [])) 7 2023 2) = Inr s
        \<and> income s = PyInt 0 \<and> expense s = PyInt 0 \<and> balance s = PyInt 0)
   \<and> days_in_month 2024 2 = 29 \<and> days_in_month 2023 2 = 28"
proof -
  let ?m = "manager (always Success) True (store_with ledger [])"
  have r: "reachable ?m"
    by (simp add: reachable_def manager_def always_def)
  have d: "days_in_month 2024 2 = 29" "days_in_month 2023 2 = 28"
    by (simp_all add: days_in_month_def mdays_def isleap_def)
  have rows: "month_rows (server ?m) 7 2024 2
                = [earned 7 1000 ''Salary'' (moment 2024 2 3 9 0 0),
                   spent 7 300 ''Food'' (moment 2024 2 29 23 59 59)]"
    by (simp add: month_rows_def d manager_def store_with_def ledger_def earned_def spent_def
        moment_def dt_le_def dt_fields_def)
  have none: "month_rows (server ?m) 7 2023 2 = []"
    by (simp add: month_rows_def d manager_def store_with_def ledger_def earned_def spent_def
        moment_def dt_le_def dt_fields_def)
  have t: "total_of ''income'' (month_rows (server ?m) 7 2024 2) = 1000"
    "total_of ''expense'' (month_rows (server ?m) 7 2024 2) = 300"
    by (simp_all add: rows total_of_def earned_def spent_def)
  have ex: "\<exists>t\<in>set (month_rows (server ?m) 7 2024 2). t_type t = ''income''"
    "\<exists>t\<in>set (month_rows (server ?m) 7 2024 2). t_type t = ''expense''"
    by (simp_all add: rows earned_def spent_def)
  obtain s where s: "fst (get_monthly_summary symbolic ?m 7 2024 2) = Inr s"
      "income s = PyFloat (float_of_decimal symbolic
                    (total_of ''income'' (month_rows (server ?m) 7 2024 2)))"
      "expense s = PyFloat (float_of_decimal symbolic
                     (total_of ''expense'' (month_rows (server ?m) 7 2024 2)))"
      "balance s = py_sub symbolic (income s) (expense s)"
    using monthly_summary_window [OF r, of 2024 2 symbolic 7] ex by auto
  obtain z where z: "fst (get_monthly_summary symbolic ?m 7 2023 2) = Inr z"
      "month_rows (server ?m) 7 2023 2 = []
         \<longrightarrow> income z = PyInt 0 \<and> expense z = PyInt 0 \<and> balance z = PyInt 0"
    using monthly_summary_window [OF r, of 2023 2 symbolic 7] by auto
  from s t have "fst (get_monthly_summary symbolic ?m 7 2024 2) = Inr s
        \<and> income s = PyFloat (FloatOfDecimal 1000)
        \<and> expense s = PyFloat (FloatOfDecimal 300)
        \<and> balance s = PyFloat (FloatSub (FloatOfDecimal 1000) (FloatOfDecimal 300))"
    by (simp add: symbolic_def)
  moreover from z none have "fst (get_monthly_summary symbolic ?m 7 2023 2) = Inr z
        \<and> income z = PyInt 0 \<and> expense z = PyInt 0 \<and> balance z = PyInt 0"
    by simp
  ultimately show ?thesis using d by blast
qed

section \<open>The weekly summary\<close>

lemma week_end: "add_timedelta (moment 2024 2 5 0 0 0) 6 86399 = Inr (moment 2024 2 11 23 59 59)"
  by (simp add: add_timedelta_def moment_def toordinal_def ymd2ord_def days_before_year_def
      days_before_month_def isleap_def MAXORDINAL_def shift_date_def eval_nat_numeral
      next_day_def days_in_month_def mdays_def)

text \<open>
  C1, at a concrete store. The ledger has no row of user 7 in the week from 2024-02-05
  00:00:00 through 2024-02-11 23:59:59 (the \<open>end_date\<close> that \<open>get_weekly_summary\<close>
  computes), and the weekly summary for that start date still reports the totals of
  the whole of February, whatever the float arithmetic is: the float of the income 1000
  (dated 2024-02-03), the float of the expense 300 (dated 2024-02-29) and their
  difference.
\<close>

theorem weekly_summary_uses_month_window:
  "add_timedelta (moment 2024 2 5 0 0 0) 6 (23 * 3600 + 59 * 60 + 59)
     = Inr (moment 2024 2 11 23 59 59)
   \<and> filter (\<lambda>t. t_user_id t = 7 \<and> dt_le (moment 2024 2 5 0 0 0) (t_date t)
                    \<and> dt_le (t_date t) (moment 2024 2 11 23 59 59)) ledger = []
   \<and> fst (get_weekly_summary F (manager (always Success) True (store_with ledger []))
             7 (moment 2024 2 5 0 0 0))
       = Inr \<lparr>income = PyFloat (float_of_decimal F 1000),
              expense = PyFloat (float_of_decimal F 300),
              income_count = 1, expense_count = 1,
              balance = PyFloat (float_sub F (float_of_decimal F 1000)
                                   (float_of_decimal F 300))\<rparr>"
proof -
  let ?m = "manager (always Success) True (store_with ledger [])"
  have r: "reachable ?m"
    by (simp add: reachable_def manager_def always_def)
  have d: "days_in_month 2024 2 = 29"
    by (simp add: days_in_month_def mdays_def isleap_def)
  have rows: "month_rows (server ?m) 7 2024 2
                = [earned 7 1000 ''Salary'' (moment 2024 2 3 9 0 0),
                   spent 7 300 ''Food'' (moment 2024 2 29 23 59 59)]"
    by (simp add: month_rows_def d manager_def store_with_def ledger_def earned_def spent_def
        moment_def dt_le_def dt_fields_def)
  have w: "filter (\<lambda>t. t_user_id t = 7 \<and> dt_le (moment 2024 2 5 0 0 0) (t_date t)
                    \<and> dt_le (t_date t) (moment 2024 2 11 23 59 59)) ledger = []"
    by (simp add: ledger_def earned_def spent_def moment_def dt_le_def dt_fields_def)
  have ym: "year (moment 2024 2 5 0 0 0) = 2024" "month (moment 2024 2 5 0 0 0) = 2"
    by (simp_all add: moment_def)
  have "fst (get_weekly_summary F ?m 7 (moment 2024 2 5 0 0 0))
          = fst (get_monthly_summary F ?m 7 2024 2)"
    by (simp add: get_weekly_summary_def week_end ym)
  also have "\<dots> = Inr \<lparr>income = PyFloat (float_of_decimal F 1000),
              expense = PyFloat (float_of_decimal F 300),
              income_count = 1, expense_count = 1,
              balance = PyFloat (float_sub F (float_of_decimal F 1000)
                                   (float_of_decimal F 300))\<rparr>"
    using get_monthly_summary_reachable [OF r, of 2024 2 F 7]
    by (simp add: rows total_of_def earned_def spent_def)
  finally show ?thesis using week_end w by simp
qed

lemma days_before_year_mono:
  assumes "y \<le> z"
  shows "days_before_year y \<le> days_before_year z"
  using assms
proof (induction z rule: int_ge_induct)
  case base
  show ?case by simp
next
  case (step i)
  have "days_before_year i \<le> days_before_year (i + 1)"
    unfolding days_before_year_Suc by (cases "isleap i") simp_all
  with step.IH show ?case by (rule order_trans)
qed

lemma days_before_year_1: "days_before_year 1 = 0"
  by (simp add: days_before_year_def)

lemma days_before_year_10000: "days_before_year 10000 = 3652059"
  by (simp add: days_before_year_def)

lemma days_before_year_nonneg: "1 \<le> y \<Longrightarrow> 0 \<le> days_before_year y"
  using days_before_year_mono [of 1 y] by (simp add: days_before_year_1)

lemma days_before_year_pos: "2 \<le> y \<Longrightarrow> 0 < days_before_year y"
proof -
  assume "2 \<le> y"
  then have "days_before_year 2 \<le> days_before_year y" by (rule days_before_year_mono)
  moreover have "days_before_year 2 = 365" by (simp add: days_before_year_def)
  ultimately show ?thesis by simp
qed

lemma within_year:
  assumes "valid_date y mo d"
  shows "0 \<le> days_before_month y mo \<and> days_before_month y mo + d \<le> 365 + (if isleap y then 1 else 0)"
proof -
  from assms have "1 \<le> mo" "mo \<le> 12" by (simp_all add: valid_date_def)
  from month_cases [OF this] assms show ?thesis
    by (elim disjE)
       (simp_all add: valid_date_def days_before_month_def days_in_month_def mdays_def)
qed

lemma toordinal_bounds:
  assumes "valid_date (year d) (month d) (day d)"
  shows "1 \<le> toordinal d \<and> toordinal d \<le> MAXORDINAL"
proof -
  from assms have y: "1 \<le> year d" "year d + 1 \<le> 10000" and dd: "1 \<le> day d"
    by (simp_all add: valid_date_def)
  have a: "0 \<le> days_before_year (year d)"
    using y(1) by (rule days_before_year_nonneg)
  have b: "days_before_year (year d + 1) \<le> 3652059"
    using days_before_year_mono [OF y(2)] by (simp add: days_before_year_10000)
  have c: "days_before_year (year d + 1)
             = days_before_year (year d) + 365 + (if isleap (year d) then 1 else 0)"
    by (rule days_before_year_Suc)
  from within_year [OF assms] a b c dd show ?thesis
    unfolding toordinal_def ymd2ord_def MAXORDINAL_def by (cases "isleap (year d)") simp_all
qed

lemma prev_day_time:
  "hour (prev_day d) = hour d \<and> minute (prev_day d) = minute d \<and> second (prev_day d) = second d
   \<and> microsecond (prev_day d) = microsecond d"
  by (simp add: prev_day_def)

lemma prev_day_ord:
  assumes v: "valid_date (year d) (month d) (day d)" and o: "1 < toordinal d"
  shows "toordinal (prev_day d) = toordinal d - 1
       \<and> valid_date (year (prev_day d)) (month (prev_day d)) (day (prev_day d))"
proof (cases "1 < day d")
  case True
  with v show ?thesis
    by (simp add: prev_day_def toordinal_def ymd2ord_def valid_date_def)
next
  case False
  with v have d1: "day d = 1" by (simp add: valid_date_def)
  show ?thesis
  proof (cases "1 < month d")
    case True
    with v have m: "1 \<le> month d - 1" "month d - 1 \<le> 12" by (simp_all add: valid_date_def)
    have "ymd2ord (year d) (month d - 1) (days_in_month (year d) (month d - 1)) + 1
            = ymd2ord (year d) (month d) 1"
      using last_day_then_first [OF m, of "year d"] v by (simp add: valid_date_def)
    moreover have "1 \<le> days_in_month (year d) (month d - 1)" by (rule days_in_month_pos)
    ultimately show ?thesis
      using v True d1 by (simp add: prev_day_def toordinal_def valid_date_def)
  next
    case False
    with v have m1: "month d = 1" by (simp add: valid_date_def)
    have y2: "2 \<le> year d"
    proof (rule ccontr)
      assume "\<not> 2 \<le> year d"
      with v have "year d = 1" by (simp add: valid_date_def)
      with m1 d1 have "toordinal d = 1"
        by (simp add: toordinal_def ymd2ord_def days_before_year_1 days_before_month_def)
      with o show False by simp
    qed
    have "ymd2ord (year d - 1) 12 (days_in_month (year d - 1) 12) + 1 = ymd2ord (year d) 1 1"
      using last_day_then_first [of 12 "year d - 1"] by simp
    moreover have "days_in_month (year d - 1) 12 = 31"
      by (simp add: days_in_month_def mdays_def)
    ultimately show ?thesis
      using v m1 d1 y2
      by (simp add: prev_day_def toordinal_def valid_date_def days_in_month_def mdays_def)
  qed
qed

lemma steps_prev_day:
  assumes "valid_date (year d) (month d) (day d)" and "int n < toordinal d"
  shows "toordinal (steps n prev_day d) = toordinal d - int n
       \<and> valid_date (year (steps n prev_day d)) (month (steps n prev_day d))
            (day (steps n prev_day d))
       \<and> microsecond (steps n prev_day d) = microsecond d"
  using assms
proof (induction n arbitrary: d)
  case 0
  then show ?case by simp
next
  case (Suc n)
  from Suc.prems have o: "1 < toordinal d" by simp
  note p = prev_day_ord [OF Suc.prems(1) o]
  from p Suc.prems(2) have "int n < toordinal (prev_day d)" by simp
  with p have "toordinal (steps n prev_day (prev_day d)) = toordinal (prev_day d) - int n
       \<and> valid_date (year (steps n prev_day (prev_day d))) (month (steps n prev_day (prev_day d)))
            (day (steps n prev_day (prev_day d)))
       \<and> microsecond (steps n prev_day (prev_day d)) = microsecond (prev_day d)"
    by (intro Suc.IH) simp_all
  with p show ?case by (simp add: prev_day_time)
qed

section \<open>The start of the budget period\<close>

lemma weekday_range:
  fixes n :: int
  assumes "1 \<le> n"
  shows "0 \<le> (n + 6) mod 7 \<and> (n + 6) mod 7 \<le> 6 \<and> (n + 6) mod 7 < n
       \<and> (n - (n + 6) mod 7 + 6) mod 7 = 0"
proof -
  have a: "0 \<le> (n + 6) mod 7" by simp
  have "(n + 6) mod 7 < 7" by simp
  then have b: "(n + 6) mod 7 \<le> 6" by linarith
  have e: "n + 6 = n - 1 + 7" by simp
  have "(n + 6) mod 7 = (n - 1 + 7) mod 7" unfolding e ..
  also have "\<dots> = (n - 1) mod 7" by (rule mod_add_self2)
  also have "\<dots> \<le> n - 1" using assms by (intro zmod_le_nonneg_dividend) simp
  finally have c: "(n + 6) mod 7 < n" by simp
  have "n - (n + 6) mod 7 + 6 = (n + 6) - (n + 6) mod 7" by simp
  also have "\<dots> = 7 * ((n + 6) div 7)" by (rule minus_mod_eq_mult_div)
  finally have d: "(n - (n + 6) mod 7 + 6) mod 7 = 0" by simp
  from a b c d show ?thesis by blast
qed

lemma seconds_of_day:
  assumes "valid_time hh mi ss us"
  shows "(hh * 3600 + mi * 60 + ss + 0) div 86400 = 0"
proof -
  from assms have "0 \<le> hh * 3600 + mi * 60 + ss + 0" "hh * 3600 + mi * 60 + ss + 0 < 86400"
    by (simp_all add: valid_time_def)
  then show ?thesis by (rule div_pos_pos_trivial)
qed

lemma shift_date_back:
  assumes "0 \<le> k"
  shows "shift_date (- k) d = steps (nat k) prev_day d"
  using assms by (cases "k = 0") (simp_all add: shift_date_def)

lemma week_start:
  assumes v: "valid_datetime now" and p: "period \<noteq> ''month''"
  shows "\<exists>start. period_start period now = Inr start
           \<and> weekday start = 0
           \<and> hour start = 0 \<and> minute start = 0 \<and> second start = 0 \<and> microsecond start = 0
           \<and> valid_datetime start
           \<and> toordinal now - toordinal start = weekday now
           \<and> 0 \<le> weekday now \<and> weekday now \<le> 6"
proof -
  from v have vd: "valid_date (year now) (month now) (day now)"
    and vt: "valid_time (hour now) (minute now) (second now) (microsecond now)"
    by (simp_all add: valid_datetime_def)
  note ob = toordinal_bounds [OF vd]
  then have o1: "1 \<le> toordinal now" by simp
  note w = weekday_range [OF o1]
  let ?wd = "weekday now"
  have wd: "0 \<le> ?wd" "?wd \<le> 6" "?wd < toordinal now"
    and mon: "(toordinal now - ?wd + 6) mod 7 = 0"
    using w by (simp_all add: weekday_def)
  let ?monday = "steps (nat ?wd) prev_day now"
  have "int (nat ?wd) < toordinal now" using wd by simp
  from steps_prev_day [OF vd this] wd(1)
  have so: "toordinal ?monday = toordinal now - ?wd"
    and sv: "valid_date (year ?monday) (month ?monday) (day ?monday)"
    by simp_all
  have range: "0 < toordinal now + (- ?wd + 0) \<and> toordinal now + (- ?wd + 0) \<le> MAXORDINAL"
    using wd ob by simp
  have at: "\<exists>h mi s. add_timedelta now (- ?wd) 0 = Inr (?monday\<lparr>hour := h, minute := mi, second := s\<rparr>)"
    unfolding add_timedelta_def Let_def seconds_of_day [OF vt]
    using range by (simp add: shift_date_back [OF wd(1)]) blast
  then obtain h mi s where at: "add_timedelta now (- ?wd) 0 = Inr (?monday\<lparr>hour := h, minute := mi, second := s\<rparr>)"
    by blast
  let ?start = "?monday\<lparr>hour := 0, minute := 0, second := 0, microsecond := 0\<rparr>"
  have ps: "period_start period now = Inr ?start"
    using p by (simp add: period_start_def at)
  have ts: "toordinal ?start = toordinal now - ?wd"
    using so by (simp add: toordinal_def)
  have "weekday ?start = (toordinal ?start + 6) mod 7"
    by (rule weekday_def)
  also have "\<dots> = (toordinal now - ?wd + 6) mod 7"
    by (simp only: ts)
  finally have "weekday ?start = 0"
    using mon by simp
  moreover have "valid_datetime ?start"
    using sv by (simp add: valid_datetime_def valid_time_def)
  ultimately show ?thesis
    using ps ts wd by (intro exI [of _ ?start]) simp
qed

section \<open>The budget check\<close>

lemma check_budget_exceeded_reachable:
  assumes r: "reachable m" and ps: "period_start period now = Inr start"
  shows "fst (check_budget_exceeded m uid cat period now) =
           Inr (case budget_rows (server m) uid cat period of
                  [] \<Rightarrow> (False, 0, 0)
                | b # bs \<Rightarrow> (b_limit_amount b < spent_since (server m) uid cat start,
                             spent_since (server m) uid cat start, b_limit_amount b))"
proof -
  obtain r1 m1 where q1: "execute_query m (sql_budget_limit uid cat period) = (r1, m1)"
    by (cases "execute_query m (sql_budget_limit uid cat period)")
  with execute_query_reachable [OF r, of "sql_budget_limit uid cat period"]
  have r1: "r1 = Inr (map b_limit_amount (budget_rows (server m) uid cat period))"
    and s1: "server m1 = server m" and re1: "reachable m1"
    by (simp_all add: sql_budget_limit_def budget_rows_def)
  show ?thesis
  proof (cases "budget_rows (server m) uid cat period")
    case Nil
    with q1 r1 show ?thesis
      by (simp add: check_budget_exceeded_def)
  next
    case (Cons b bs)
    obtain r2 m2 where q2: "execute_query m1 (sql_spent uid cat start) = (r2, m2)"
      by (cases "execute_query m1 (sql_spent uid cat start)")
    with execute_query_reachable [OF re1, of "sql_spent uid cat start"] s1
    have r2: "r2 = Inr [spent_since (server m) uid cat start]"
      by (simp add: sql_spent_def spent_since_def)
    from Cons q1 r1 q2 r2 ps show ?thesis
      by (simp add: check_budget_exceeded_def Let_def)
  qed
qed

lemma month_start:
  "period_start ''month'' now =
     Inr \<lparr>year = year now, month = month now, day = 1, hour = 0, minute = 0, second = 0,
          microsecond = 0\<rparr>"
  by (simp add: period_start_def)

text \<open>
  C2, as the code has it. On a reachable store and at a valid \<open>now\<close>: the period start
  is the first day of \<open>now\<close>'s month at 00:00:00 when the period is \<open>month\<close>, and
  otherwise the most recent Monday at 00:00:00 (a Monday, at most six days before
  \<open>now\<close>'s day, \<open>now\<close>'s own day when that is a Monday). Without a budget row for
  (user, category, period) the result is \<open>(False, 0, 0)\<close>. With one, the limit is the
  first row's and the amount spent is the total of the user's expense rows of the
  category dated at or after the period start, with no upper bound at \<open>now\<close>; the
  result is \<open>(limit < spent, spent, limit)\<close>.
\<close>

theorem budget_check_from_period_start:
  assumes "reachable m" and "valid_datetime now"
  shows "\<exists>start. period_start period now = Inr start
           \<and> (period = ''month'' \<longrightarrow>
                 start = \<lparr>year = year now, month = month now, day = 1, hour = 0, minute = 0,
                          second = 0, microsecond = 0\<rparr>)
           \<and> (period \<noteq> ''month'' \<longrightarrow>
                 weekday start = 0
                 \<and> hour start = 0 \<and> minute start = 0 \<and> second start = 0 \<and> microsecond start = 0
                 \<and> valid_datetime start
                 \<and> toordinal now - toordinal start = weekday now
                 \<and> 0 \<le> weekday now \<and> weekday now \<le> 6)
           \<and> fst (check_budget_exceeded m uid cat period now) =
               Inr (case budget_rows (server m) uid cat period of
                      [] \<Rightarrow> (False, 0, 0)
                    | b # bs \<Rightarrow> (b_limit_amount b < spent_since (server m) uid cat start,
                                 spent_since (server m) uid cat start, b_limit_amount b))"
proof (cases "period = ''month''")
  case True
  let ?start = "\<lparr>year = year now, month = month now, day = 1, hour = 0, minute = 0,
                  second = 0, microsecond = 0\<rparr>"
  have ps: "period_start period now = Inr ?start"
    using True by (simp add: month_start)
  from check_budget_exceeded_reachable [OF assms(1) ps, of uid cat] ps True show ?thesis
    by (intro exI [of _ ?start]) simp
next
  case False
  from week_start [OF assms(2) False] obtain start where
    s: "period_start period now = Inr start" "weekday start = 0"
      "hour start = 0" "minute start = 0" "second start = 0" "microsecond start = 0"
      "valid_datetime start" "toordinal now - toordinal start = weekday now"
      "0 \<le> weekday now" "weekday now \<le> 6"
    by blast
  from check_budget_exceeded_reachable [OF assms(1) s(1), of uid cat] s False show ?thesis
    by (intro exI [of _ start]) simp
qed

lemma sample_now_valid: "valid_datetime (moment 2024 2 15 12 0 0)"
  by (simp add: valid_datetime_def valid_date_def valid_time_def moment_def days_in_month_def
      mdays_def isleap_def)

lemma sample_week_start: "period_start ''week'' (moment 2024 2 15 12 0 0) = Inr (moment 2024 2 12 0 0 0)"
  by (simp add: period_start_def weekday_def add_timedelta_def moment_def toordinal_def
      ymd2ord_def days_before_year_def days_before_month_def isleap_def MAXORDINAL_def
      shift_date_def eval_nat_numeral prev_day_def days_in_month_def mdays_def)

theorem budget_check_from_period_start_witness:
  "fst (check_budget_exceeded (manager (always Success) True (store_with lunches [food_budget ''month'']))
          7 ''Food'' ''month'' (moment 2024 2 15 12 0 0)) = Inr (True, 600, 500)
   \<and> period_start ''week'' (moment 2024 2 15 12 0 0) = Inr (moment 2024 2 12 0 0 0)
   \<and> weekday (moment 2024 2 15 12 0 0) = 3 \<and> weekday (moment 2024 2 12 0 0 0) = 0
   \<and> fst (check_budget_exceeded (manager (always Success) True (store_with lunches [food_budget ''week'']))
          7 ''Food'' ''week'' (moment 2024 2 15 12 0 0)) = Inr (False, 400, 500)
   \<and> fst (check_budget_exceeded (manager (always Success) True (store_with lunches []))
          7 ''Food'' ''month'' (moment 2024 2 15 12 0 0)) = Inr (False, 0, 0)"
proof -
  let ?now = "moment 2024 2 15 12 0 0"
  let ?mm = "manager (always Success) True (store_with lunches [food_budget ''month''])"
  let ?mw = "manager (always Success) True (store_with lunches [food_budget ''week''])"
  let ?m0 = "manager (always Success) True (store_with lunches [])"
  have r: "reachable ?mm" "reachable ?mw" "reachable ?m0"
    by (simp_all add: reachable_def manager_def always_def)
  have bm: "budget_rows (server ?mm) 7 ''Food'' ''month'' = [food_budget ''month'']"
    and bw: "budget_rows (server ?mw) 7 ''Food'' ''week'' = [food_budget ''week'']"
    and b0: "budget_rows (server ?m0) 7 ''Food'' ''month'' = []"
    by (simp_all add: budget_rows_def manager_def store_with_def food_budget_def)
  have sm: "spent_since (server ?mm) 7 ''Food'' (moment 2024 2 1 0 0 0) = 600"
    and sw: "spent_since (server ?mw) 7 ''Food'' (moment 2024 2 12 0 0 0) = 400"
    by (simp_all add: spent_since_def manager_def store_with_def lunches_def spent_def moment_def
        dt_le_def dt_fields_def)
  have l: "b_limit_amount (food_budget p) = 500" for p
    by (simp add: food_budget_def)
  have wk: "weekday ?now = 3" "weekday (moment 2024 2 12 0 0 0) = 0"
    by (simp_all add: weekday_def toordinal_def ymd2ord_def days_before_year_def
        days_before_month_def isleap_def moment_def)
  have ne: "''week'' \<noteq> ''month''" by simp
  obtain s1 where s1: "period_start ''month'' ?now = Inr s1"
      "s1 = \<lparr>year = year ?now, month = month ?now, day = 1, hour = 0, minute = 0,
              second = 0, microsecond = 0\<rparr>"
      "fst (check_budget_exceeded ?mm 7 ''Food'' ''month'' ?now) =
         Inr (case budget_rows (server ?mm) 7 ''Food'' ''month'' of
                [] \<Rightarrow> (False, 0, 0)
              | b # bs \<Rightarrow> (b_limit_amount b < spent_since (server ?mm) 7 ''Food'' s1,
                           spent_since (server ?mm) 7 ''Food'' s1, b_limit_amount b))"
    using budget_check_from_period_start [OF r(1) sample_now_valid, of "''month''" 7 "''Food''"]
    by blast
  from s1(2) have e1: "s1 = moment 2024 2 1 0 0 0" by (simp add: moment_def)
  have a: "fst (check_budget_exceeded ?mm 7 ''Food'' ''month'' ?now) = Inr (True, 600, 500)"
    unfolding s1(3) e1 bm sm by (simp add: l)
  obtain s2 where s2: "period_start ''week'' ?now = Inr s2"
      "fst (check_budget_exceeded ?mw 7 ''Food'' ''week'' ?now) =
         Inr (case budget_rows (server ?mw) 7 ''Food'' ''week'' of
                [] \<Rightarrow> (False, 0, 0)
              | b # bs \<Rightarrow> (b_limit_amount b < spent_since (server ?mw) 7 ''Food'' s2,
                           spent_since (server ?mw) 7 ''Food'' s2, b_limit_amount b))"
    using budget_check_from_period_start [OF r(2) sample_now_valid, of "''week''" 7 "''Food''"]
    by blast
  from s2(1) have e2: "s2 = moment 2024 2 12 0 0 0" by (simp add: sample_week_start)
  have b: "fst (check_budget_exceeded ?mw 7 ''Food'' ''week'' ?now) = Inr (False, 400, 500)"
    unfolding s2(2) e2 bw sw by (simp add: l)
  obtain s3 where s3:
      "fst (check_budget_exceeded ?m0 7 ''Food'' ''month'' ?now) =
         Inr (case budget_rows (server ?m0) 7 ''Food'' ''month'' of
                [] \<Rightarrow> (False, 0, 0)
              | b # bs \<Rightarrow> (b_limit_amount b < spent_since (server ?m0) 7 ''Food'' s3,
                           spent_since (server ?m0) 7 ''Food'' s3, b_limit_amount b))"
    using budget_check_from_period_start [OF r(3) sample_now_valid, of "''month''" 7 "''Food''"]
    by blast
  have c: "fst (check_budget_exceeded ?m0 7 ''Food'' ''month'' ?now) = Inr (False, 0, 0)"
    unfolding s3 b0 by simp
  from a b c wk sample_week_start show ?thesis by simp
qed

text \<open>
  At 2024-02-15 12:00:00 the only expense row is dated 2024-03-01: no expense lies
  between the period start (2024-02-01 00:00:00) and \<open>now\<close>, and the check still
  reports 600 spent and the limit of 500 exceeded.
\<close>

theorem budget_check_counts_later_rows_counterexample:
  "valid_datetime (moment 2024 2 15 12 0 0)
   \<and> filter (\<lambda>t. t_user_id t = 7 \<and> t_category t = ''Food'' \<and> t_type t = ''expense''
                  \<and> dt_le (moment 2024 2 1 0 0 0) (t_date t)
                  \<and> dt_le (t_date t) (moment 2024 2 15 12 0 0))
        [spent 7 600 ''Food'' (moment 2024 3 1 0 0 0)] = []
   \<and> fst (check_budget_exceeded
            (manager (always Success) True
               (store_with [spent 7 600 ''Food'' (moment 2024 3 1 0 0 0)] [food_budget ''month'']))
            7 ''Food'' ''month'' (moment 2024 2 15 12 0 0))
       = Inr (True, 600, 500)"
proof -
  let ?now = "moment 2024 2 15 12 0 0"
  let ?m = "manager (always Success) True
               (store_with [spent 7 600 ''Food'' (moment 2024 3 1 0 0 0)] [food_budget ''month''])"
  have r: "reachable ?m"
    by (simp add: reachable_def manager_def always_def)
  have ps: "period_start ''month'' ?now = Inr (moment 2024 2 1 0 0 0)"
    by (simp add: month_start moment_def)
  have b: "budget_rows (server ?m) 7 ''Food'' ''month'' = [food_budget ''month'']"
    by (simp add: budget_rows_def manager_def store_with_def food_budget_def)
  have s: "spent_since (server ?m) 7 ''Food'' (moment 2024 2 1 0 0 0) = 600"
    by (simp add: spent_since_def manager_def store_with_def spent_def moment_def
        dt_le_def dt_fields_def)
  have f: "filter (\<lambda>t. t_user_id t = 7 \<and> t_category t = ''Food'' \<and> t_type t = ''expense''
                  \<and> dt_le (moment 2024 2 1 0 0 0) (t_date t)
                  \<and> dt_le (t_date t) (moment 2024 2 15 12 0 0))
        [spent 7 600 ''Food'' (moment 2024 3 1 0 0 0)] = []"
    by (simp add: spent_def moment_def dt_le_def dt_fields_def)
  have "fst (check_budget_exceeded ?m 7 ''Food'' ''month'' ?now) = Inr (True, 600, 500)"
    unfolding check_budget_exceeded_reachable [OF r ps] b s by (simp add: food_budget_def)
  with f sample_now_valid show ?thesis by simp
qed

end
